theory Spec2Isabelle
  imports Complex_Main
begin

section \<open>JavaScript strings and values\<close>

text \<open>
  A JavaScript string is a sequence of UTF-16 code units; \<open>length\<close>, \<open>indexOf\<close>,
  \<open>slice\<close> and \<open>substr\<close> count code units. A code unit is a natural number here, and
  \<open>js\<close> writes an ASCII literal of the source as its code units.
\<close>

type_synonym jsstring = "nat list"

definition js :: "string \<Rightarrow> jsstring" where
  "js s = map of_char s"

text \<open>
  The characters matched by \<open>\s\<close> in a regular expression and removed by
  \<open>String.prototype.trim\<close>: ECMAScript's WhiteSpace and LineTerminator.
\<close>

definition is_ws :: "nat \<Rightarrow> bool" where
  "is_ws c = (c \<in> {9, 10, 11, 12, 13, 32, 160, 5760, 8232, 8233, 8239, 8287, 12288, 65279}
              \<or> (8192 \<le> c \<and> c \<le> 8202))"

definition trim :: "jsstring \<Rightarrow> jsstring" where
  "trim s = rev (dropWhile is_ws (rev (dropWhile is_ws s)))"

text \<open>\<open>s.endsWith(t)\<close>, case-sensitive.\<close>

definition endsWith :: "jsstring \<Rightarrow> jsstring \<Rightarrow> bool" where
  "endsWith s t = (length t \<le> length s \<and> drop (length s - length t) s = t)"

text \<open>
  A number is a double: not-a-number, an infinity, or a finite value, which is a
  rational. The program never computes with numbers; it only tests them for zero and
  compares them with a constant, and on those tests \<open>-0\<close> behaves as \<open>0\<close>.
\<close>

datatype jsnum = NaN | PosInf | NegInf | Fin rat

text \<open>
  The values that travel through the gateway: \<open>undefined\<close>, \<open>null\<close>, booleans,
  numbers, strings, arrays and plain objects. An object is the list of its own enumerable
  data properties in enumeration order; reading a property takes the first binding of
  the key. Such an object has the prototype it was created with, \<open>Object.prototype\<close>.
  The program reads by name only the keys \<open>cookie\<close>, \<open>code\<close> and \<open>ip\<close>, which no
  built-in prototype defines, and otherwise reads own keys, so no read of it reaches
  an inherited property. A key \<open>__proto__\<close> in the list is an own data property, as
  \<open>JSON.parse\<close> creates it.
\<close>

datatype jsval =
    Undefined
  | Null
  | Bool bool
  | Num jsnum
  | Str jsstring
  | Arr "jsval list"
  | Obj "(jsstring \<times> jsval) list"

text \<open>\<open>obj[k]\<close> on a list of own properties: \<open>undefined\<close> when the key is absent.\<close>

definition lookup :: "(jsstring \<times> jsval) list \<Rightarrow> jsstring \<Rightarrow> jsval" where
  "lookup kvs k = (case map_of kvs k of None \<Rightarrow> Undefined | Some v \<Rightarrow> v)"

text \<open>
  The names that are array indices: the decimal digits, without a leading zero, of a
  number below 4294967295. An object enumerates its properties with such names first,
  in ascending order of the number, and the others after them in the order of their
  creation. Numbers written without leading zeros are compared by the length of their
  digits and, at equal length, digit by digit.
\<close>

fun digits_less :: "jsstring \<Rightarrow> jsstring \<Rightarrow> bool" where
  "digits_less (x # xs) (y # ys) = (x < y \<or> (x = y \<and> digits_less xs ys))"
| "digits_less _ _ = False"

definition index_less :: "jsstring \<Rightarrow> jsstring \<Rightarrow> bool" where
  "index_less k k' = (length k < length k' \<or> (length k = length k' \<and> digits_less k k'))"

definition is_index :: "jsstring \<Rightarrow> bool" where
  "is_index k = (k \<noteq> [] \<and> list_all (\<lambda>c. 48 \<le> c \<and> c \<le> 57) k
                 \<and> (k = [48] \<or> hd k \<noteq> 48) \<and> index_less k (js ''4294967295''))"

text \<open>
  A data property \<open>k\<close> with value \<open>v\<close> written into a list of own properties: an
  existing property keeps its place and takes the new value; a new property whose name
  is an array index is placed among the indices, in ascending order; any other new
  property is added last. The \<open>__proto__\<close> accessor is handled where the program
  assigns a key that can have that name.
\<close>

fun assign_prop :: "(jsstring \<times> jsval) list \<Rightarrow> jsstring \<Rightarrow> jsval \<Rightarrow> (jsstring \<times> jsval) list" where
  "assign_prop [] k v = [(k, v)]"
| "assign_prop ((k', v') # kvs) k v =
     (if k' = k then (k, v) # kvs
      else if is_index k \<and> (if is_index k' then index_less k k' else True)
      then (k, v) # (k', v') # kvs
      else (k', v') # assign_prop kvs k v)"

text \<open>The decimal digits of an array index, as a property key.\<close>

fun dec :: "nat \<Rightarrow> jsstring" where
  "dec n = (if n < 10 then [48 + n] else dec (n div 10) @ [48 + n mod 10])"

declare dec.simps [simp del]

text \<open>
  The own enumerable properties of a value after \<open>ToObject\<close>, as \<open>Object.assign\<close> and
  object spread read them: the properties of an object, the indexed elements of an
  array, the indexed characters of a string, and nothing for the other primitives
  (\<open>undefined\<close> and \<open>null\<close> are skipped by both operations).
\<close>

fun own_props :: "jsval \<Rightarrow> (jsstring \<times> jsval) list" where
  "own_props (Obj kvs) = kvs"
| "own_props (Arr xs) = map (\<lambda>(i, x). (dec i, x)) (enumerate 0 xs)"
| "own_props (Str s) = map (\<lambda>(i, c). (dec i, Str [c])) (enumerate 0 s)"
| "own_props _ = []"

text \<open>
  \<open>v[k]\<close> for a value \<open>v\<close> that is neither \<open>undefined\<close> nor \<open>null\<close> (there the read
  throws). Every read of the program has such a base: Express supplies \<open>req.query\<close> and
  \<open>req.body\<close> as objects, and the body of a failure is read only after it tested truthy.
\<close>

definition get_prop :: "jsval \<Rightarrow> jsstring \<Rightarrow> jsval" where
  "get_prop v k = lookup (own_props v) k"

text \<open>
  \<open>v[k] = x\<close> for an object \<open>v\<close> and a key that is not \<open>__proto__\<close>: the program
  assigns by name only \<open>cookie\<close> and \<open>msg\<close>, and only to objects.
\<close>

fun set_prop :: "jsval \<Rightarrow> jsstring \<Rightarrow> jsval \<Rightarrow> jsval" where
  "set_prop (Obj kvs) k x = Obj (assign_prop kvs k x)"
| "set_prop v k x = v"

text \<open>Truthiness (\<open>ToBoolean\<close>).\<close>

fun truthy :: "jsval \<Rightarrow> bool" where
  "truthy Undefined = False"
| "truthy Null = False"
| "truthy (Bool b) = b"
| "truthy (Num n) = (n \<noteq> NaN \<and> n \<noteq> Fin 0)"
| "truthy (Str s) = (s \<noteq> [])"
| "truthy (Arr xs) = True"
| "truthy (Obj kvs) = True"

text \<open>
  \<open>ToString\<close>. The digits of a number are those of the runtime's \<open>Number::toString\<close>,
  a parameter \<open>ns\<close>. An array is converted by \<open>join\<close>, which writes \<open>undefined\<close> and
  \<open>null\<close> elements as the empty string; an object by the inherited
  \<open>Object.prototype.toString\<close>.
\<close>

fun join :: "jsstring \<Rightarrow> jsstring list \<Rightarrow> jsstring" where
  "join sep [] = []"
| "join sep [s] = s"
| "join sep (s # t # ts) = s @ sep @ join sep (t # ts)"

fun ToString :: "(jsnum \<Rightarrow> jsstring) \<Rightarrow> jsval \<Rightarrow> jsstring" where
  "ToString ns Undefined = js ''undefined''"
| "ToString ns Null = js ''null''"
| "ToString ns (Bool b) = (if b then js ''true'' else js ''false'')"
| "ToString ns (Num n) = ns n"
| "ToString ns (Str s) = s"
| "ToString ns (Arr xs) =
     join (js '','') (map (\<lambda>x. if x = Undefined \<or> x = Null then [] else ToString ns x) xs)"
| "ToString ns (Obj kvs) = js ''[object Object]''"

text \<open>
  \<open>v == '301'\<close>, the loose comparison of the failure path with its string literal: a
  string is compared as a string, a number with \<open>ToNumber('301') = 301\<close>, a boolean
  through \<open>ToNumber\<close> (0 or 1), an array or object through its primitive, which is its
  \<open>ToString\<close>; \<open>undefined\<close> and \<open>null\<close> equal only each other.
\<close>

fun loose_eq_301 :: "(jsnum \<Rightarrow> jsstring) \<Rightarrow> jsval \<Rightarrow> bool" where
  "loose_eq_301 ns Undefined = False"
| "loose_eq_301 ns Null = False"
| "loose_eq_301 ns (Bool b) = False"
| "loose_eq_301 ns (Num n) = (n = Fin 301)"
| "loose_eq_301 ns (Str s) = (s = js ''301'')"
| "loose_eq_301 ns (Arr xs) = (ToString ns (Arr xs) = js ''301'')"
| "loose_eq_301 ns (Obj kvs) = (ToString ns (Obj kvs) = js ''301'')"


section \<open>Module discovery: \<open>getModulesDefinitions\<close>\<close>

text \<open>
  \<open>fileName.replace(/\.js$/i, '')\<close>: the pattern is anchored at the end of the input,
  so its only possible match is the last three code units; without the \<open>u\<close> flag the
  case-insensitive comparison identifies \<open>j\<close> with \<open>J\<close> and \<open>s\<close> with \<open>S\<close> only.
\<close>

definition strip_js_suffix :: "jsstring \<Rightarrow> jsstring" where
  "strip_js_suffix f =
     (let n = length f in
      if 3 \<le> n \<and> f ! (n - 3) = of_char CHR ''.''
           \<and> (f ! (n - 2) = of_char CHR ''j'' \<or> f ! (n - 2) = of_char CHR ''J'')
           \<and> (f ! (n - 1) = of_char CHR ''s'' \<or> f ! (n - 1) = of_char CHR ''S'')
      then take (n - 3) f else f)"

text \<open>\<open>s.replace(/_/g, '/')\<close>.\<close>

definition underscores_to_slashes :: "jsstring \<Rightarrow> jsstring" where
  "underscores_to_slashes s = map (\<lambda>c. if c = of_char CHR ''_'' then of_char CHR ''/'' else c) s"

text \<open>
  \<open>parseRoute\<close>. The override table \<open>specificRoute\<close> is optional; \<open>fileName in
  specificRoute\<close> is membership among its keys (the function is applied to names that
  end in \<open>.js\<close>, and no inherited property has such a name).
\<close>

definition parseRoute :: "(jsstring \<rightharpoonup> jsstring) option \<Rightarrow> jsstring \<Rightarrow> jsstring" where
  "parseRoute specificRoute fileName =
     (case specificRoute of
        None \<Rightarrow> js ''/'' @ underscores_to_slashes (strip_js_suffix fileName)
      | Some table \<Rightarrow>
          (case table fileName of
             Some r \<Rightarrow> r
           | None \<Rightarrow> js ''/'' @ underscores_to_slashes (strip_js_suffix fileName)))"

text \<open>
  The type \<open>ModuleDefinition\<close> of the source; its field \<open>identifier\<close> is written
  \<open>identifier'\<close>, the plain word being reserved in Isabelle.
\<close>

record 'm ModuleDefinition =
  identifier' :: jsstring
  route :: jsstring
  module :: 'm

datatype fs_error = ReaddirError

text \<open>
  \<open>getModulesDefinitions\<close>. \<open>readdir\<close> is the outcome of \<open>fs.promises.readdir\<close>, whose
  rejection is the function's rejection. \<open>load file\<close> stands for
  \<open>doRequire ? require(path.join(modulesPath, file)) : path.join(modulesPath, file)\<close>.
  \<open>file.split('.').shift()\<close> is the part of the name before its first dot.
\<close>

definition getModulesDefinitions ::
  "fs_error + jsstring list \<Rightarrow> (jsstring \<rightharpoonup> jsstring) option \<Rightarrow> (jsstring \<Rightarrow> 'm)
     \<Rightarrow> fs_error + 'm ModuleDefinition list" where
  "getModulesDefinitions readdir specificRoute load =
     (case readdir of
        Inl e \<Rightarrow> Inl e
      | Inr files \<Rightarrow>
          Inr (map (\<lambda>file. \<lparr>identifier' = takeWhile (\<lambda>c. c \<noteq> of_char CHR ''.'') file,
                             route = parseRoute specificRoute file,
                             module = load file\<rparr>)
                 (filter (\<lambda>file. endsWith file (js ''.js'')) (rev files))))"

text \<open>The override table of \<open>consturctServer\<close>.\<close>

definition special :: "jsstring \<rightharpoonup> jsstring" where
  "special = map_of
     [(js ''daily_signin.js'', js ''/daily_signin''),
      (js ''fm_trash.js'', js ''/fm_trash''),
      (js ''personal_fm.js'', js ''/personal_fm'')]"

text \<open>
  \<open>moduleDefs || (await getModulesDefinitions(path.join(__dirname, 'module'), special))\<close>:
  an array passed by the caller is truthy and is taken as it is.
\<close>

definition moduleDefinitions ::
  "'m ModuleDefinition list option \<Rightarrow> fs_error + jsstring list \<Rightarrow> (jsstring \<Rightarrow> 'm)
     \<Rightarrow> fs_error + 'm ModuleDefinition list" where
  "moduleDefinitions moduleDefs readdir load =
     (case moduleDefs of
        Some defs \<Rightarrow> Inr defs
      | None \<Rightarrow> getModulesDefinitions readdir (Some special) load)"

text \<open>
  The registration loop calls \<open>app.use(moduleDef.route, handler)\<close> for the definitions
  in list order; Express keeps the layers in that order and runs, for a request, the
  first layer whose path matches. The handlers of this program never call \<open>next\<close>, so
  that layer alone serves the request. Whether a route matches a request path is
  decided by Express and is a parameter here.
\<close>

definition serving :: "(jsstring \<Rightarrow> jsstring \<Rightarrow> bool) \<Rightarrow> 'm ModuleDefinition list \<Rightarrow> jsstring
     \<Rightarrow> 'm ModuleDefinition option" where
  "serving matches defs path = find (\<lambda>d. matches (route d) path) defs"


section \<open>The cookie-parsing middleware\<close>

text \<open>
  One attempt to match \<open>/;\s+|(?<!\s)\s+$/\<close> at a given position: \<open>prev\<close> is the
  code unit before the position (none at the start of the input), \<open>rest\<close> the input
  from the position on. The result is the length of the match. The first alternative is
  a semicolon and the longest non-empty run of whitespace after it; the second is a
  run of whitespace that reaches the end of the input and is not preceded by
  whitespace.
\<close>

definition match_delimiter :: "nat option \<Rightarrow> jsstring \<Rightarrow> nat option" where
  "match_delimiter prev rest =
     (case rest of
        [] \<Rightarrow> None
      | c # cs \<Rightarrow>
          if c = of_char CHR '';'' \<and> takeWhile is_ws cs \<noteq> []
          then Some (1 + length (takeWhile is_ws cs))
          else if is_ws c \<and> list_all is_ws cs
                  \<and> (case prev of None \<Rightarrow> True | Some p \<Rightarrow> \<not> is_ws p)
          then Some (length rest)
          else None)"

text \<open>
  \<open>String.prototype.split\<close> with that pattern: the pattern is tried at each position
  from left to right; where it fails the position moves on by one code unit, where it
  matches the piece collected so far is emitted and the search resumes after the match.
  The piece that is open at the end of the input is emitted last, so the empty input
  gives one empty piece.
\<close>

function split_cookie :: "nat option \<Rightarrow> jsstring \<Rightarrow> jsstring \<Rightarrow> jsstring list" where
  "split_cookie prev piece [] = [piece]"
| "split_cookie prev piece (c # cs) =
     (case match_delimiter prev (c # cs) of
        None \<Rightarrow> split_cookie (Some c) (piece @ [c]) cs
      | Some n \<Rightarrow> piece # split_cookie (Some (last (take n (c # cs)))) [] (drop n (c # cs)))"
  by pat_completeness auto
termination
  by (relation "measure (\<lambda>(prev, piece, rest). length rest)")
     (auto simp: match_delimiter_def split: if_splits)

text \<open>\<open>s.indexOf(c)\<close> for one code unit \<open>c\<close>: the first position, or \<open>-1\<close>.\<close>

fun indexOf :: "jsstring \<Rightarrow> nat \<Rightarrow> int" where
  "indexOf [] c = - 1"
| "indexOf (x # xs) c =
     (if x = c then 0 else (let i = indexOf xs c in if i < 0 then - 1 else i + 1))"

text \<open>
  The body of the \<open>forEach\<close>: one piece of the header, stored into \<open>req.cookies\<close>.
  \<open>decode\<close> is the percent-decoder \<open>safe-decode-uri-component\<close>, a parameter. The
  assignment \<open>req.cookies[name] = value\<close> with the name \<open>__proto__\<close> runs the accessor
  that \<open>req.cookies\<close> inherits from \<open>Object.prototype\<close>, which ignores a value that is
  a string: nothing is stored.
\<close>

definition store_pair ::
  "(jsstring \<Rightarrow> jsstring) \<Rightarrow> jsstring \<Rightarrow> (jsstring \<times> jsval) list \<Rightarrow> (jsstring \<times> jsval) list" where
  "store_pair decode pair cookies =
     (let crack = indexOf pair (of_char CHR ''='') in
      if crack < 1 \<or> crack = int (length pair) - 1 then cookies
      else
        let name = trim (decode (take (nat crack) pair));
            content = trim (decode (drop (nat (crack + 1)) pair))
        in if name = js ''__proto__'' then cookies
           else assign_prop cookies name (Str content))"

text \<open>
  The middleware: \<open>header\<close> is \<open>req.headers.cookie\<close>, absent when the request has no
  Cookie header; the result is \<open>req.cookies\<close>.
\<close>

definition parse_cookies :: "(jsstring \<Rightarrow> jsstring) \<Rightarrow> jsstring option \<Rightarrow> (jsstring \<times> jsval) list" where
  "parse_cookies decode header =
     fold (store_pair decode)
       (split_cookie None [] (case header of None \<Rightarrow> [] | Some h \<Rightarrow> h)) []"


section \<open>The route handler\<close>

text \<open>
  What the handler reads of the request: \<open>req.cookies\<close>, \<open>req.query\<close>, \<open>req.body\<close>,
  \<open>req.files\<close> (absent when nothing was uploaded), \<open>req.ip\<close> and \<open>req.protocol\<close>.
\<close>

record request =
  req_cookies :: "(jsstring \<times> jsval) list"
  req_query :: jsval
  req_body :: jsval
  req_files :: jsval
  req_ip :: jsstring
  req_protocol :: jsstring

text \<open>
  What the handler does to the response, as the calls it makes on \<open>res\<close>:
  \<open>res.status(c)\<close> sets \<open>statusCode\<close>, \<open>res.append(field, value)\<close> and \<open>res.send(body)\<close>
  are recorded in the order of the calls. What Express makes of the recorded values
  (the header lines, the serialised body) is outside the program.
\<close>

record response =
  statusCode :: jsval
  appended :: "(jsstring \<times> jsval) list"
  sent :: "jsval list"

definition res_status :: "jsval \<Rightarrow> response \<Rightarrow> response" where
  "res_status c res = res\<lparr>statusCode := c\<rparr>"

definition res_append :: "jsstring \<Rightarrow> jsval \<Rightarrow> response \<Rightarrow> response" where
  "res_append field v res = res\<lparr>appended := appended res @ [(field, v)]\<rparr>"

definition res_send :: "jsval \<Rightarrow> response \<Rightarrow> response" where
  "res_send b res = res\<lparr>sent := sent res @ [b]\<rparr>"

text \<open>
  The object a module resolves or rejects with: \<open>status\<close>, \<open>body\<close> and \<open>cookie\<close>, a
  field that the object does not have reading as \<open>undefined\<close>.
\<close>

record moduleResponse =
  status :: jsval
  body :: jsval
  cookie :: jsval

datatype outcome = Resolved moduleResponse | Rejected moduleResponse

text \<open>
  The body of \<open>[req.query, req.body].forEach\<close>: a \<open>cookie\<close> field that is a string is
  replaced by \<open>cookieToJson(decode(item.cookie))\<close>. \<open>cookieToJson\<close> is the helper of
  \<open>util/index\<close>, a parameter.
\<close>

definition cookie_field_to_json ::
  "(jsstring \<Rightarrow> jsstring) \<Rightarrow> (jsstring \<Rightarrow> jsval) \<Rightarrow> jsval \<Rightarrow> jsval" where
  "cookie_field_to_json decode cookieToJson item =
     (case get_prop item (js ''cookie'') of
        Str s \<Rightarrow> set_prop item (js ''cookie'') (cookieToJson (decode s))
      | _ \<Rightarrow> item)"

text \<open>
  The object \<open>{}\<close> that \<open>Object.assign\<close> fills and the module receives: its own
  properties, and its prototype, which is \<open>Object.prototype\<close> (\<open>None\<close>) until the
  inherited \<open>__proto__\<close> accessor puts a value in its place.
\<close>

record fresh_object =
  own_properties :: "(jsstring \<times> jsval) list"
  prototype :: "jsval option"

text \<open>
  Whether an assignment of \<open>__proto__\<close> to an object that has no own property of that
  name reaches the accessor of \<open>Object.prototype\<close>. It does through the prototype the
  object was created with, and through an array or an object put in its place, unless
  that object has an own data property \<open>__proto__\<close>; it does not when the prototype is
  \<open>null\<close>.
\<close>

fun reaches_accessor :: "jsval option \<Rightarrow> bool" where
  "reaches_accessor None = True"
| "reaches_accessor (Some (Obj kvs)) = (js ''__proto__'' \<notin> fst ` set kvs)"
| "reaches_accessor (Some (Arr xs)) = True"
| "reaches_accessor (Some v) = False"

text \<open>
  \<open>target[k] = v\<close> as \<open>Object.assign\<close> performs it. For \<open>__proto__\<close>, when the target
  has no own property of that name and the accessor is reached, the accessor runs: an
  array, an object or \<open>null\<close> becomes the prototype of the target, any other value is
  ignored, and no own property is created. In every other case the value is written as
  an own data property.
\<close>

definition object_set :: "fresh_object \<Rightarrow> jsstring \<Rightarrow> jsval \<Rightarrow> fresh_object" where
  "object_set target k v =
     (if k = js ''__proto__'' \<and> k \<notin> fst ` set (own_properties target)
         \<and> reaches_accessor (prototype target)
      then (case v of
              Obj kvs \<Rightarrow> target\<lparr>prototype := Some v\<rparr>
            | Arr xs \<Rightarrow> target\<lparr>prototype := Some v\<rparr>
            | Null \<Rightarrow> target\<lparr>prototype := Some v\<rparr>
            | _ \<Rightarrow> target)
      else target\<lparr>own_properties := assign_prop (own_properties target) k v\<rparr>)"

text \<open>
  \<open>Object.assign(target, ...sources)\<close>: for each source in turn and each of its own
  enumerable keys in turn, the target's property is set to the value read from the
  source.
\<close>

definition assign_from :: "jsval \<Rightarrow> fresh_object \<Rightarrow> fresh_object" where
  "assign_from src target =
     fold (\<lambda>k t. object_set t k (get_prop src k)) (map fst (own_props src)) target"

definition object_assign :: "fresh_object \<Rightarrow> jsval list \<Rightarrow> fresh_object" where
  "object_assign target sources = fold assign_from sources target"

text \<open>
  \<open>Object.assign({}, {cookie: req.cookies}, req.query, req.body, req.files)\<close>.
\<close>

definition assemble :: "request \<Rightarrow> fresh_object" where
  "assemble req =
     object_assign \<lparr>own_properties = [], prototype = None\<rparr>
       [Obj [(js ''cookie'', Obj (req_cookies req))], req_query req, req_body req, req_files req]"

text \<open>
  Reading and writing an array by index: a read past the end gives \<open>undefined\<close>, a
  write past the end extends the array, the skipped positions reading as \<open>undefined\<close>
  when the array is spread into the call.
\<close>

definition array_get :: "jsval list \<Rightarrow> nat \<Rightarrow> jsval" where
  "array_get xs i = (if i < length xs then xs ! i else Undefined)"

definition array_set :: "jsval list \<Rightarrow> nat \<Rightarrow> jsval \<Rightarrow> jsval list" where
  "array_set xs i v =
     (if i < length xs then xs[i := v] else xs @ replicate (i - length xs) Undefined @ [v])"

text \<open>
  The arguments that the wrapper passed to the module hands to \<open>request\<close>:
  \<open>obj = [...params]\<close>, the prefix test on \<open>req.ip\<close>, and
  \<open>obj[3] = {...obj[3], ip}\<close>.
\<close>

definition client_ip :: "jsstring \<Rightarrow> jsstring" where
  "client_ip ip = (if take 7 ip = js ''::ffff:'' then drop 7 ip else ip)"

definition inject_ip :: "jsstring \<Rightarrow> jsval list \<Rightarrow> jsval list" where
  "inject_ip ip params =
     (let obj = params in
      array_set obj 3
        (Obj (assign_prop (own_props (array_get obj 3)) (js ''ip'') (Str (client_ip ip)))))"

text \<open>
  The success path, after the module resolved. \<open>cookie + '; SameSite=None; Secure'\<close>
  converts the cookie to a string and appends the attributes. The calls on \<open>res\<close> are
  recorded as made; an exception that Express raises inside one of them, which the
  \<open>try\<close> block would hand to the \<open>catch\<close> block, is outside the model.
\<close>

definition success_path :: "(jsnum \<Rightarrow> jsstring) \<Rightarrow> jsstring \<Rightarrow> moduleResponse \<Rightarrow> response \<Rightarrow> response" where
  "success_path ns protocol mr res =
     (let cookies = cookie mr;
          res1 =
            (case cookies of
               Arr cs \<Rightarrow>
                 if length cs > 0 then
                   (if protocol = js ''https''
                    then res_append (js ''Set-Cookie'')
                           (Arr (map (\<lambda>c. Str (ToString ns c @ js ''; SameSite=None; Secure'')) cs)) res
                    else res_append (js ''Set-Cookie'') cookies res)
                 else res
             | _ \<Rightarrow> res)
      in res_send (body mr) (res_status (status mr) res1))"

text \<open>The message \<open>U+9700 U+8981 U+767B U+5F55\<close> written on a failure with code 301.\<close>

definition login_required :: jsstring where
  "login_required = [0x9700, 0x8981, 0x767B, 0x5F55]"

definition not_found :: jsval where
  "not_found = Obj [(js ''code'', Num (Fin 404)), (js ''data'', Null), (js ''msg'', Str (js ''Not Found''))]"

text \<open>The \<open>catch\<close> block, after the module rejected.\<close>

definition failure_path :: "(jsnum \<Rightarrow> jsstring) \<Rightarrow> moduleResponse \<Rightarrow> response \<Rightarrow> response" where
  "failure_path ns mr res =
     (if \<not> truthy (body mr) then res_send not_found (res_status (Num (Fin 404)) res)
      else
        let b = (if loose_eq_301 ns (get_prop (body mr) (js ''code''))
                 then set_prop (body mr) (js ''msg'') (Str login_required)
                 else body mr)
        in res_send b (res_status (status mr) (res_append (js ''Set-Cookie'') (cookie mr) res)))"

text \<open>
  What the handler does once the promise of the module has settled: the rest of the
  \<open>try\<close> block when it resolved, the \<open>catch\<close> block when it rejected.
\<close>

definition respond :: "(jsnum \<Rightarrow> jsstring) \<Rightarrow> jsstring \<Rightarrow> outcome \<Rightarrow> response \<Rightarrow> response" where
  "respond ns protocol settled res =
     (case settled of
        Resolved moduleResponse \<Rightarrow> success_path ns protocol moduleResponse res
      | Rejected moduleResponse \<Rightarrow> failure_path ns moduleResponse res)"

text \<open>
  The handler registered for a route. The module is called with the assembled
  parameters and the wrapper around \<open>request\<close>, the outbound HTTP client; its promise
  settles as an \<open>outcome\<close>. The handler leaves the request with its \<open>query\<close> and \<open>body\<close>
  updated in place, and the response written. A module that throws, or rejects with a
  value that has none of the three fields, is a rejection whose fields all read as
  \<open>undefined\<close>. The lines printed to the console are not part of the state.
\<close>

definition route_handler ::
  "(jsstring \<Rightarrow> jsstring) \<Rightarrow> (jsstring \<Rightarrow> jsval) \<Rightarrow> (jsnum \<Rightarrow> jsstring) \<Rightarrow> (jsval list \<Rightarrow> 'r)
     \<Rightarrow> (fresh_object \<Rightarrow> (jsval list \<Rightarrow> 'r) \<Rightarrow> outcome) \<Rightarrow> request \<Rightarrow> response \<Rightarrow> request \<times> response" where
  "route_handler decode cookieToJson ns request module_fn req res =
     (let req1 = req\<lparr>req_query := cookie_field_to_json decode cookieToJson (req_query req)\<rparr>;
          req2 = req1\<lparr>req_body := cookie_field_to_json decode cookieToJson (req_body req1)\<rparr>;
          query = assemble req2
      in (req2,
          respond ns (req_protocol req2)
            (module_fn query (\<lambda>params. request (inject_ip (req_ip req2) params))) res))"

section \<open>The response cache\<close>

text \<open>
  The program registers the cache as
  \<open>cache('2 minutes', (_, res) => res.statusCode === 200)\<close>: a duration, here in
  milliseconds, and the test that decides whether a response is stored.
\<close>

definition cache_duration :: nat where
  "cache_duration = 2 * 60 * 1000"

definition cache_toggle :: "response \<Rightarrow> bool" where
  "cache_toggle res = (statusCode res = Num (Fin 200))"

text \<open>
  Modelled from the spec: an entry of the response cache of \<open>util/apicache\<close>, which is
  not among the sources. It holds a stored response and the time at which it expires.
\<close>

record cache_entry =
  stored :: response
  expires :: nat

text \<open>
  Modelled from the spec: the cache middleware of \<open>util/apicache\<close>, which is not among
  the sources. A request with a key that has an entry not yet expired is answered with
  the stored response and the dispatcher is skipped; otherwise the dispatcher runs, and
  its response is stored under the key with the configured expiry when the test accepts
  it. Nothing else changes the cache. The result is the response, whether the
  dispatcher ran, and the cache afterwards; \<open>produced\<close> is the response the dispatcher
  writes when it runs.
\<close>

definition cache_middleware ::
  "nat \<Rightarrow> jsstring \<Rightarrow> response \<Rightarrow> (jsstring \<rightharpoonup> cache_entry)
     \<Rightarrow> response \<times> bool \<times> (jsstring \<rightharpoonup> cache_entry)" where
  "cache_middleware now key produced c =
     (case c key of
        Some e \<Rightarrow>
          if now < expires e then (stored e, False, c)
          else (produced, True,
                if cache_toggle produced
                then c(key \<mapsto> \<lparr>stored = produced, expires = now + cache_duration\<rparr>) else c)
      | None \<Rightarrow>
          (produced, True,
           if cache_toggle produced
           then c(key \<mapsto> \<lparr>stored = produced, expires = now + cache_duration\<rparr>) else c))"

text \<open>
  Modelled from the spec: the cache after a sequence of requests, each given by its
  time, its key and the response the dispatcher writes for it.
\<close>

fun cache_after :: "(nat \<times> jsstring \<times> response) list \<Rightarrow> (jsstring \<rightharpoonup> cache_entry)
     \<Rightarrow> (jsstring \<rightharpoonup> cache_entry)" where
  "cache_after [] c = c"
| "cache_after ((now, key, produced) # rs) c =
     cache_after rs (snd (snd (cache_middleware now key produced c)))"


section \<open>Properties of module discovery\<close>

lemma endsWith_append: "endsWith (b @ t) t"
  unfolding endsWith_def by simp

lemma endsWith_iff: "endsWith s t \<longleftrightarrow> (\<exists>b. s = b @ t)"
proof
  assume "endsWith s t"
  then have d: "drop (length s - length t) s = t"
    unfolding endsWith_def by (rule conjunct2)
  have "s = take (length s - length t) s @ drop (length s - length t) s"
    by (rule append_take_drop_id[symmetric])
  then have "s = take (length s - length t) s @ t"
    by (simp only: d)
  then show "\<exists>b. s = b @ t" ..
next
  assume "\<exists>b. s = b @ t"
  then show "endsWith s t" by (auto simp: endsWith_append)
qed

lemma js_dot_js: "js ''.js'' = [46, 106, 115]"
  by (simp add: js_def)

lemma strip_js_suffix_append: "strip_js_suffix (b @ js ''.js'') = b"
  by (simp add: strip_js_suffix_def js_dot_js nth_append Let_def)

lemma parseRoute_derived:
  "table (stem @ js ''.js'') = None \<Longrightarrow>
   parseRoute (Some table) (stem @ js ''.js'') = js ''/'' @ underscores_to_slashes stem"
  by (simp add: parseRoute_def strip_js_suffix_append)

lemma parseRoute_no_table:
  "parseRoute None (stem @ js ''.js'') = js ''/'' @ underscores_to_slashes stem"
  by (simp add: parseRoute_def strip_js_suffix_append)

lemma parseRoute_override: "table file = Some r \<Longrightarrow> parseRoute (Some table) file = r"
  by (simp add: parseRoute_def)

lemma underscores_to_slashes_inj:
  "of_char CHR ''/'' \<notin> set a \<Longrightarrow> of_char CHR ''/'' \<notin> set b \<Longrightarrow>
   underscores_to_slashes a = underscores_to_slashes b \<Longrightarrow> a = b"
proof (induction a arbitrary: b)
  case Nil
  then show ?case by (simp add: underscores_to_slashes_def)
next
  case (Cons x xs)
  then obtain y ys where b: "b = y # ys"
    by (cases b) (auto simp: underscores_to_slashes_def)
  from Cons.prems b have "x = y"
    by (auto simp: underscores_to_slashes_def split: if_splits)
  moreover from Cons.prems b have "underscores_to_slashes xs = underscores_to_slashes ys"
    by (simp add: underscores_to_slashes_def)
  with Cons.IH[of ys] Cons.prems b have "xs = ys" by simp
  ultimately show ?case using b by simp
qed

lemma no_underscore_derived: "(of_char CHR ''_'' :: nat) \<notin> set (js ''/'' @ underscores_to_slashes s)"
  by (auto simp: js_def underscores_to_slashes_def)

lemma special_cases:
  "special f = Some r \<Longrightarrow>
     (f = js ''daily_signin.js'' \<and> r = js ''/daily_signin'') \<or>
     (f = js ''fm_trash.js'' \<and> r = js ''/fm_trash'') \<or>
     (f = js ''personal_fm.js'' \<and> r = js ''/personal_fm'')"
  unfolding special_def by (simp split: if_splits)

lemma special_underscore: "special f = Some r \<Longrightarrow> of_char CHR ''_'' \<in> set r"
  by (drule special_cases) (auto simp: js_def)

lemma special_inj: "special f = Some r \<Longrightarrow> special g = Some r \<Longrightarrow> f = g"
  by (drule special_cases, drule special_cases) (auto simp: js_def)

lemma parseRoute_special_inj:
  assumes f: "endsWith f (js ''.js'')" "of_char CHR ''/'' \<notin> set f"
      and g: "endsWith g (js ''.js'')" "of_char CHR ''/'' \<notin> set g"
      and eq: "parseRoute (Some special) f = parseRoute (Some special) g"
  shows "f = g"
proof -
  from f(1) obtain a where fa: "f = a @ js ''.js''" by (auto simp: endsWith_iff)
  from g(1) obtain b where gb: "g = b @ js ''.js''" by (auto simp: endsWith_iff)
  show ?thesis
  proof (cases "special f")
    case None
    note fN = this
    show ?thesis
    proof (cases "special g")
      case None
      from fN None eq have "underscores_to_slashes a = underscores_to_slashes b"
        unfolding fa gb by (simp add: parseRoute_derived)
      moreover from f(2) g(2) have "of_char CHR ''/'' \<notin> set a" "of_char CHR ''/'' \<notin> set b"
        unfolding fa gb by simp_all
      ultimately have "a = b" by (rule underscores_to_slashes_inj[rotated 2])
      then show ?thesis by (simp add: fa gb)
    next
      case (Some r)
      then have "parseRoute (Some special) g = r" by (rule parseRoute_override)
      moreover from fN have "parseRoute (Some special) f = js ''/'' @ underscores_to_slashes a"
        unfolding fa by (rule parseRoute_derived)
      ultimately have "r = js ''/'' @ underscores_to_slashes a" using eq by simp
      with special_underscore[OF Some] no_underscore_derived[of a] show ?thesis by simp
    qed
  next
    case (Some r)
    note fS = this
    then have rf: "parseRoute (Some special) f = r" by (rule parseRoute_override)
    show ?thesis
    proof (cases "special g")
      case None
      then have "parseRoute (Some special) g = js ''/'' @ underscores_to_slashes b"
        unfolding gb by (rule parseRoute_derived)
      with rf eq have "r = js ''/'' @ underscores_to_slashes b" by simp
      with special_underscore[OF fS] no_underscore_derived[of b] show ?thesis by simp
    next
      case (Some r')
      then have "parseRoute (Some special) g = r'" by (rule parseRoute_override)
      with rf eq have "r' = r" by simp
      with fS Some show ?thesis by (auto intro: special_inj)
    qed
  qed
qed

lemma take_stem: "take (length (b @ js ''.js'') - 3) (b @ js ''.js'') = b"
  by (simp add: js_dot_js)

text \<open>
  C4. A file name that ends in \<open>.js\<close> and is not a key of the override table gets the
  route made of a slash and the name without its suffix, each underscore replaced by a
  slash; a file name that is a key of the override table gets the route the table gives
  it, as it is. So \<open>user_detail.js\<close> is served at \<open>/user/detail\<close>, and under the table
  of the server \<open>daily_signin.js\<close> is served at \<open>/daily_signin\<close>.
\<close>

theorem C4_route_derivation:
  "(endsWith file (js ''.js'') \<and> table file = None \<longrightarrow>
      parseRoute (Some table) file =
        js ''/'' @ map (\<lambda>c. if c = of_char CHR ''_'' then of_char CHR ''/'' else c)
                    (take (length file - 3) file))
   \<and> (table file' = Some r \<longrightarrow> parseRoute (Some table) file' = r)
   \<and> parseRoute (Some special) (js ''user_detail.js'') = js ''/user/detail''
   \<and> parseRoute (Some special) (js ''daily_signin.js'') = js ''/daily_signin''"
proof (intro conjI impI)
  assume a: "endsWith file (js ''.js'') \<and> table file = None"
  then obtain stem where fl: "file = stem @ js ''.js''"
    by (auto simp: endsWith_iff)
  with a have "parseRoute (Some table) file = js ''/'' @ underscores_to_slashes stem"
    by (simp add: parseRoute_derived)
  then show "parseRoute (Some table) file =
        js ''/'' @ map (\<lambda>c. if c = of_char CHR ''_'' then of_char CHR ''/'' else c)
                    (take (length file - 3) file)"
    by (simp only: fl take_stem underscores_to_slashes_def)
next
  assume "table file' = Some r"
  then show "parseRoute (Some table) file' = r" by (rule parseRoute_override)
next
  show "parseRoute (Some special) (js ''user_detail.js'') = js ''/user/detail''"
    by (simp add: parseRoute_def special_def js_def strip_js_suffix_def underscores_to_slashes_def)
next
  show "parseRoute (Some special) (js ''daily_signin.js'') = js ''/daily_signin''"
    by (simp add: parseRoute_def special_def js_def)
qed

theorem C4_route_derivation_witness:
  "endsWith (js ''user_detail.js'') (js ''.js'') \<and> special (js ''user_detail.js'') = None
   \<and> parseRoute (Some special) (js ''user_detail.js'') = js ''/user/detail''
   \<and> special (js ''daily_signin.js'') = Some (js ''/daily_signin'')
   \<and> parseRoute (Some special) (js ''daily_signin.js'') = js ''/daily_signin''"
  using C4_route_derivation[of "js ''user_detail.js''" special "js ''daily_signin.js''" "js ''/daily_signin''"]
  by (simp add: endsWith_def special_def js_def)

lemma getModulesDefinitions_routes:
  "getModulesDefinitions (Inr files) sr load = Inr defs \<Longrightarrow>
   map route defs = map (parseRoute sr) (rev (filter (\<lambda>f. endsWith f (js ''.js'')) files))"
  by (auto simp: getModulesDefinitions_def rev_filter o_def)

lemma getModulesDefinitions_modules:
  "getModulesDefinitions (Inr files) sr load = Inr defs \<Longrightarrow>
   map module defs = map load (rev (filter (\<lambda>f. endsWith f (js ''.js'')) files))"
  by (auto simp: getModulesDefinitions_def rev_filter o_def)

lemma getModulesDefinitions_distinct:
  assumes defs: "getModulesDefinitions (Inr files) (Some special) load = Inr defs"
      and d: "distinct files" and ns: "\<forall>f\<in>set files. of_char CHR ''/'' \<notin> set f"
  shows "distinct (map route defs)"
proof -
  let ?xs = "rev (filter (\<lambda>f. endsWith f (js ''.js'')) files)"
  have "distinct ?xs" using d by simp
  moreover have "inj_on (parseRoute (Some special)) (set ?xs)"
    using ns by (auto intro!: inj_onI parseRoute_special_inj)
  ultimately have "distinct (map (parseRoute (Some special)) ?xs)"
    by (simp only: distinct_map simp_thms)
  then show ?thesis using getModulesDefinitions_routes[OF defs] by simp
qed

lemma serving_first:
  "serving matches defs path = Some d \<Longrightarrow>
   \<exists>i<length defs. defs ! i = d \<and> matches (route d) path
      \<and> (\<forall>j<i. \<not> matches (route (defs ! j)) path)"
  unfolding serving_def find_Some_iff by blast

text \<open>
  C8, as stated, fails: with the override table of the function's own documentation,
  \<open>album_new.js\<close> and \<open>album_create.js\<close> are both bound to \<open>/album/create\<close>, so the
  routes of the registry are not unique, and a request for that route is served by the
  binding registered first, not by the one registered last.
\<close>

theorem C8_counterexample:
  "getModulesDefinitions (Inr [js ''album_create.js'', js ''album_new.js''])
       (Some [js ''album_new.js'' \<mapsto> js ''/album/create'']) id
     = Inr [\<lparr>identifier' = js ''album_new'', route = js ''/album/create'', module = js ''album_new.js''\<rparr>,
            \<lparr>identifier' = js ''album_create'', route = js ''/album/create'', module = js ''album_create.js''\<rparr>]
   \<and> \<not> distinct (map route
         [\<lparr>identifier' = js ''album_new'', route = js ''/album/create'', module = js ''album_new.js''\<rparr>,
          \<lparr>identifier' = js ''album_create'', route = js ''/album/create'', module = js ''album_create.js''\<rparr>])
   \<and> serving (=)
         [\<lparr>identifier' = js ''album_new'', route = js ''/album/create'', module = js ''album_new.js''\<rparr>,
          \<lparr>identifier' = js ''album_create'', route = js ''/album/create'', module = js ''album_create.js''\<rparr>]
         (js ''/album/create'')
     = Some \<lparr>identifier' = js ''album_new'', route = js ''/album/create'', module = js ''album_new.js''\<rparr>
   \<and> serving (=)
         [\<lparr>identifier' = js ''album_new'', route = js ''/album/create'', module = js ''album_new.js''\<rparr>,
          \<lparr>identifier' = js ''album_create'', route = js ''/album/create'', module = js ''album_create.js''\<rparr>]
         (js ''/album/create'')
     \<noteq> Some \<lparr>identifier' = js ''album_create'', route = js ''/album/create'', module = js ''album_create.js''\<rparr>"
  by (simp add: getModulesDefinitions_def parseRoute_def endsWith_def strip_js_suffix_def
        underscores_to_slashes_def serving_def js_def)

text \<open>
  C8, amended. Discovery goes through the directory entries in reverse order of the
  listing and makes one binding for each module file, duplicates of a route included.
  With the override table of the server, and a listing of distinct names none of which
  contains a slash, the routes are pairwise distinct. The bindings are registered in
  the order of discovery and a request is served by the first registered binding whose
  route matches: among colliding entries the one later in the listing takes precedence.
\<close>

theorem C8_discovery_order:
  assumes "getModulesDefinitions (Inr files) sr load = Inr defs"
  shows "map route defs = map (parseRoute sr) (rev (filter (\<lambda>f. endsWith f (js ''.js'')) files))
    \<and> map module defs = map load (rev (filter (\<lambda>f. endsWith f (js ''.js'')) files))
    \<and> (sr = Some special \<and> distinct files \<and> (\<forall>f\<in>set files. of_char CHR ''/'' \<notin> set f)
          \<longrightarrow> distinct (map route defs))
    \<and> (\<forall>d. serving matches defs path = Some d \<longrightarrow>
          (\<exists>i<length defs. defs ! i = d \<and> matches (route d) path
              \<and> (\<forall>j<i. \<not> matches (route (defs ! j)) path)))"
proof (intro conjI impI allI)
  show "map route defs = map (parseRoute sr) (rev (filter (\<lambda>f. endsWith f (js ''.js'')) files))"
    using assms by (rule getModulesDefinitions_routes)
  show "map module defs = map load (rev (filter (\<lambda>f. endsWith f (js ''.js'')) files))"
    using assms by (rule getModulesDefinitions_modules)
next
  assume h: "sr = Some special \<and> distinct files \<and> (\<forall>f\<in>set files. of_char CHR ''/'' \<notin> set f)"
  with assms have "getModulesDefinitions (Inr files) (Some special) load = Inr defs" by simp
  then show "distinct (map route defs)"
    using h by (auto intro: getModulesDefinitions_distinct)
next
  fix d assume "serving matches defs path = Some d"
  then show "\<exists>i<length defs. defs ! i = d \<and> matches (route d) path
              \<and> (\<forall>j<i. \<not> matches (route (defs ! j)) path)"
    by (rule serving_first)
qed

theorem C8_discovery_order_witness:
  "getModulesDefinitions (Inr [js ''a.js'', js ''b_c.js'', js ''notes.txt'']) (Some special) id
     = Inr [\<lparr>identifier' = js ''b_c'', route = js ''/b/c'', module = js ''b_c.js''\<rparr>,
            \<lparr>identifier' = js ''a'', route = js ''/a'', module = js ''a.js''\<rparr>]
   \<and> distinct [js ''a.js'', js ''b_c.js'', js ''notes.txt'']
   \<and> distinct [js ''/b/c'', js ''/a'']
   \<and> serving (=)
         [\<lparr>identifier' = js ''b_c'', route = js ''/b/c'', module = js ''b_c.js''\<rparr>,
          \<lparr>identifier' = js ''a'', route = js ''/a'', module = js ''a.js''\<rparr>] (js ''/a'')
       = Some \<lparr>identifier' = js ''a'', route = js ''/a'', module = js ''a.js''\<rparr>"
proof -
  let ?files = "[js ''a.js'', js ''b_c.js'', js ''notes.txt'']"
  let ?defs = "[\<lparr>identifier' = js ''b_c'', route = js ''/b/c'', module = js ''b_c.js''\<rparr>,
            \<lparr>identifier' = js ''a'', route = js ''/a'', module = js ''a.js''\<rparr>]"
  have run: "getModulesDefinitions (Inr ?files) (Some special) id = Inr ?defs"
    by (simp add: getModulesDefinitions_def parseRoute_def endsWith_def strip_js_suffix_def
          underscores_to_slashes_def special_def js_def)
  have pre: "Some special = Some special \<and> distinct ?files \<and> (\<forall>f\<in>set ?files. of_char CHR ''/'' \<notin> set f)"
    by (simp add: js_def)
  have srv: "serving (=) ?defs (js ''/a'') = Some \<lparr>identifier' = js ''a'', route = js ''/a'', module = js ''a.js''\<rparr>"
    by (simp add: serving_def js_def)
  from C8_discovery_order[OF run, of "(=)" "js ''/a''"] pre srv
  have "distinct (map route ?defs)" by blast
  then have "distinct [js ''/b/c'', js ''/a'']" by simp
  with run pre srv show ?thesis by blast
qed



section \<open>Properties of objects\<close>

lemma lookup_assign_prop:
  "lookup (assign_prop kvs k v) k' = (if k' = k then v else lookup kvs k')"
  by (induction kvs) (auto simp: lookup_def)

lemma dec_digits: "c \<in> set (dec n) \<Longrightarrow> 48 \<le> c \<and> c \<le> 57"
proof (induction n rule: dec.induct)
  case (1 n)
  show ?case
  proof (cases "n < 10")
    case True
    with "1.prems" show ?thesis by (subst (asm) dec.simps) simp
  next
    case False
    from "1.prems" have "c \<in> set (dec (n div 10)) \<or> c = 48 + n mod 10"
      using False by (subst (asm) dec.simps) auto
    then show ?thesis
    proof
      assume "c \<in> set (dec (n div 10))"
      with "1.IH"[OF False] show ?thesis .
    next
      assume "c = 48 + n mod 10"
      moreover have "n mod 10 < 10" by simp
      ultimately show ?thesis by linarith
    qed
  qed
qed

lemma dec_nonempty: "dec n \<noteq> []"
  by (subst dec.simps) simp

lemma not_index_key:
  assumes "c \<in> set k" "c < 48 \<or> 57 < c"
  shows "k \<noteq> dec n"
  using assms dec_digits[of c n] by auto

lemma lookup_indexed:
  assumes "c \<in> set k" "c < 48 \<or> 57 < c"
  shows "lookup (map (\<lambda>(i, x). (dec i, f x)) ixs) k = Undefined"
proof -
  have "map_of (map (\<lambda>(i, x). (dec i, f x)) ixs) k = None"
    using not_index_key[OF assms] by (induction ixs) (auto split: prod.splits)
  then show ?thesis by (simp add: lookup_def)
qed

lemma get_prop_named:
  assumes "c \<in> set k" "c < 48 \<or> 57 < c"
  shows "get_prop v k = (case v of Obj kvs \<Rightarrow> lookup kvs k | _ \<Rightarrow> Undefined)"
proof (cases v)
  case (Arr xs)
  then show ?thesis using lookup_indexed[OF assms, of "\<lambda>x. x"] by (simp add: get_prop_def)
next
  case (Str s)
  then show ?thesis using lookup_indexed[OF assms, of "\<lambda>c. Str [c]"] by (simp add: get_prop_def)
qed (simp_all add: get_prop_def lookup_def)

lemma get_prop_code: "get_prop v (js ''code'') = (case v of Obj kvs \<Rightarrow> lookup kvs (js ''code'') | _ \<Rightarrow> Undefined)"
  by (rule get_prop_named[of 99]) (simp_all add: js_def)

lemma get_prop_cookie: "get_prop v (js ''cookie'') = (case v of Obj kvs \<Rightarrow> lookup kvs (js ''cookie'') | _ \<Rightarrow> Undefined)"
  by (rule get_prop_named[of 99]) (simp_all add: js_def)

lemma loose_eq_301_needs_object:
  assumes "loose_eq_301 ns (get_prop b (js ''code''))"
  obtains kvs where "b = Obj kvs"
  using assms by (cases b) (simp_all add: get_prop_code)


section \<open>Properties of the failure and success paths\<close>

lemma falsy_values:
  "\<not> truthy v \<longleftrightarrow> v \<in> {Undefined, Null, Bool False, Num NaN, Num (Fin 0), Str []}"
  by (cases v) auto

text \<open>
  C2. When the module rejects with an object whose \<open>body\<close> is absent or falsy, the
  handler sets the status 404 and sends the fixed object with \<open>code\<close> 404, \<open>data\<close>
  \<open>null\<close> and \<open>msg\<close> \<open>Not Found\<close>, whatever \<open>status\<close> the rejection carries; nothing else
  is sent and no header is appended.
\<close>

theorem C2_missing_body:
  assumes "\<not> truthy (body mr)"
  shows "respond ns protocol (Rejected mr) res =
           res\<lparr>statusCode := Num (Fin 404),
               sent := sent res @ [Obj [(js ''code'', Num (Fin 404)), (js ''data'', Null),
                                        (js ''msg'', Str (js ''Not Found''))]]\<rparr>"
  using assms
  by (simp add: respond_def failure_path_def res_send_def res_status_def not_found_def)

theorem C2_missing_body_witness:
  "\<not> truthy (body \<lparr>status = Num (Fin 500), body = Undefined, cookie = Arr [Str (js ''a=b'')]\<rparr>)
   \<and> respond (\<lambda>n. []) (js ''http'')
         (Rejected \<lparr>status = Num (Fin 500), body = Undefined, cookie = Arr [Str (js ''a=b'')]\<rparr>)
         \<lparr>statusCode = Num (Fin 200), appended = [], sent = []\<rparr>
       = \<lparr>statusCode = Num (Fin 404), appended = [],
          sent = [Obj [(js ''code'', Num (Fin 404)), (js ''data'', Null),
                       (js ''msg'', Str (js ''Not Found''))]]\<rparr>"
proof -
  have h: "\<not> truthy (body \<lparr>status = Num (Fin 500), body = Undefined, cookie = Arr [Str (js ''a=b'')]\<rparr>)"
    by simp
  from C2_missing_body[OF h, of "\<lambda>n. []" "js ''http''" "\<lparr>statusCode = Num (Fin 200), appended = [], sent = []\<rparr>"] h
  show ?thesis by simp
qed

text \<open>
  C3. When the module rejects with a truthy \<open>body\<close> whose \<open>code\<close> loosely equals
  \<open>'301'\<close>, which both the string \<open>301\<close> and the number 301 do, the body is sent with
  its \<open>msg\<close> overwritten by the login-required message and every other property,
  \<open>code\<close> among them, as it was, under the status of the rejection. When \<open>code\<close> does
  not loosely equal \<open>'301'\<close>, the status and the body of the rejection are passed on as
  they are.
\<close>

theorem C3_login_required:
  assumes "truthy (body mr)"
  shows "(loose_eq_301 ns (get_prop (body mr) (js ''code'')) \<longrightarrow>
            (\<exists>b. statusCode (respond ns protocol (Rejected mr) res) = status mr
                \<and> sent (respond ns protocol (Rejected mr) res) = sent res @ [b]
                \<and> get_prop b (js ''msg'') = Str login_required
                \<and> get_prop b (js ''code'') = get_prop (body mr) (js ''code'')
                \<and> (\<forall>k. k \<noteq> js ''msg'' \<longrightarrow> get_prop b k = get_prop (body mr) k)))
       \<and> (\<not> loose_eq_301 ns (get_prop (body mr) (js ''code'')) \<longrightarrow>
            statusCode (respond ns protocol (Rejected mr) res) = status mr
            \<and> sent (respond ns protocol (Rejected mr) res) = sent res @ [body mr])
       \<and> loose_eq_301 ns (Str (js ''301'')) \<and> loose_eq_301 ns (Num (Fin 301))"
proof (intro conjI impI)
  assume eq: "loose_eq_301 ns (get_prop (body mr) (js ''code''))"
  then obtain kvs where b: "body mr = Obj kvs" by (rule loose_eq_301_needs_object)
  let ?b = "set_prop (body mr) (js ''msg'') (Str login_required)"
  have "statusCode (respond ns protocol (Rejected mr) res) = status mr"
    using assms by (simp add: respond_def failure_path_def res_send_def res_status_def res_append_def Let_def)
  moreover have "sent (respond ns protocol (Rejected mr) res) = sent res @ [?b]"
    using assms eq by (simp add: respond_def failure_path_def res_send_def res_status_def res_append_def)
  moreover have "get_prop ?b (js ''msg'') = Str login_required"
    unfolding b by (simp add: get_prop_def lookup_assign_prop)
  moreover have other: "\<forall>k. k \<noteq> js ''msg'' \<longrightarrow> get_prop ?b k = get_prop (body mr) k"
    unfolding b by (simp add: get_prop_def lookup_assign_prop)
  moreover have "get_prop ?b (js ''code'') = get_prop (body mr) (js ''code'')"
    using other by (simp add: js_def)
  ultimately show "\<exists>b. statusCode (respond ns protocol (Rejected mr) res) = status mr
                \<and> sent (respond ns protocol (Rejected mr) res) = sent res @ [b]
                \<and> get_prop b (js ''msg'') = Str login_required
                \<and> get_prop b (js ''code'') = get_prop (body mr) (js ''code'')
                \<and> (\<forall>k. k \<noteq> js ''msg'' \<longrightarrow> get_prop b k = get_prop (body mr) k)"
    by blast
next
  assume "\<not> loose_eq_301 ns (get_prop (body mr) (js ''code''))"
  then show "statusCode (respond ns protocol (Rejected mr) res) = status mr"
    and "sent (respond ns protocol (Rejected mr) res) = sent res @ [body mr]"
    using assms by (simp_all add: respond_def failure_path_def res_send_def res_status_def res_append_def)
next
  show "loose_eq_301 ns (Str (js ''301''))" by simp
  show "loose_eq_301 ns (Num (Fin 301))" by simp
qed


theorem C3_login_required_witness:
  "truthy (body \<lparr>status = Num (Fin 403), body = Obj [(js ''code'', Num (Fin 301)), (js ''msg'', Str (js ''x''))], cookie = Undefined\<rparr>)
   \<and> loose_eq_301 (\<lambda>n. []) (get_prop (Obj [(js ''code'', Num (Fin 301)), (js ''msg'', Str (js ''x''))]) (js ''code''))
   \<and> respond (\<lambda>n. []) (js ''http'')
         (Rejected \<lparr>status = Num (Fin 403), body = Obj [(js ''code'', Num (Fin 301)), (js ''msg'', Str (js ''x''))], cookie = Undefined\<rparr>)
         \<lparr>statusCode = Num (Fin 200), appended = [], sent = []\<rparr>
       = \<lparr>statusCode = Num (Fin 403), appended = [(js ''Set-Cookie'', Undefined)],
          sent = [Obj [(js ''code'', Num (Fin 301)), (js ''msg'', Str login_required)]]\<rparr>
   \<and> truthy (body \<lparr>status = Num (Fin 502), body = Obj [(js ''code'', Num (Fin 502))], cookie = Arr []\<rparr>)
   \<and> \<not> loose_eq_301 (\<lambda>n. []) (get_prop (Obj [(js ''code'', Num (Fin 502))]) (js ''code''))
   \<and> respond (\<lambda>n. []) (js ''http'')
         (Rejected \<lparr>status = Num (Fin 502), body = Obj [(js ''code'', Num (Fin 502))], cookie = Arr []\<rparr>)
         \<lparr>statusCode = Num (Fin 200), appended = [], sent = []\<rparr>
       = \<lparr>statusCode = Num (Fin 502), appended = [(js ''Set-Cookie'', Arr [])],
          sent = [Obj [(js ''code'', Num (Fin 502))]]\<rparr>"
proof -
  let ?a = "\<lparr>status = Num (Fin 403), body = Obj [(js ''code'', Num (Fin 301)), (js ''msg'', Str (js ''x''))], cookie = Undefined\<rparr>"
  let ?b = "\<lparr>status = Num (Fin 502), body = Obj [(js ''code'', Num (Fin 502))], cookie = Arr []\<rparr>"
  let ?res = "\<lparr>statusCode = Num (Fin 200), appended = [], sent = []\<rparr>"
  have ta: "truthy (body ?a)" and tb: "truthy (body ?b)" by simp_all
  have ea: "loose_eq_301 (\<lambda>n. []) (get_prop (body ?a) (js ''code''))"
    by (simp add: get_prop_def lookup_def js_def)
  have eb: "\<not> loose_eq_301 (\<lambda>n. []) (get_prop (body ?b) (js ''code''))"
    by (simp add: get_prop_def lookup_def js_def)
  from C3_login_required[OF ta, of "\<lambda>n. []" "js ''http''" ?res] ea
  obtain b where a1: "statusCode (respond (\<lambda>n. []) (js ''http'') (Rejected ?a) ?res) = status ?a"
    and a2: "sent (respond (\<lambda>n. []) (js ''http'') (Rejected ?a) ?res) = sent ?res @ [b]"
    by blast
  from C3_login_required[OF tb, of "\<lambda>n. []" "js ''http''" ?res] eb
  have b1: "statusCode (respond (\<lambda>n. []) (js ''http'') (Rejected ?b) ?res) = status ?b"
    and b2: "sent (respond (\<lambda>n. []) (js ''http'') (Rejected ?b) ?res) = sent ?res @ [body ?b]"
    by blast+
  have ra: "respond (\<lambda>n. []) (js ''http'') (Rejected ?a) ?res
       = \<lparr>statusCode = Num (Fin 403), appended = [(js ''Set-Cookie'', Undefined)],
          sent = [Obj [(js ''code'', Num (Fin 301)), (js ''msg'', Str login_required)]]\<rparr>"
    using a1 a2
    by (simp add: respond_def failure_path_def res_send_def res_status_def res_append_def
          get_prop_def lookup_def is_index_def js_def)
  have rb: "respond (\<lambda>n. []) (js ''http'') (Rejected ?b) ?res
       = \<lparr>statusCode = Num (Fin 502), appended = [(js ''Set-Cookie'', Arr [])],
          sent = [Obj [(js ''code'', Num (Fin 502))]]\<rparr>"
    using b1 b2
    by (simp add: respond_def failure_path_def res_send_def res_status_def res_append_def
          get_prop_def lookup_def js_def)
  from ta tb ea eb ra rb show ?thesis by simp
qed

text \<open>
  C10. When the module rejects with a truthy \<open>body\<close>, the handler appends a
  \<open>Set-Cookie\<close> header with the \<open>cookie\<close> field of the rejection whatever that field
  is, \<open>undefined\<close> included, and whatever the protocol, without rewriting it. When the
  module resolves, the header is appended only for a non-empty array, each cookie
  extended by \<open>; SameSite=None; Secure\<close> under \<open>https\<close> and the array unchanged under
  any other protocol.
\<close>

theorem C10_failure_cookie:
  "(truthy (body mr) \<longrightarrow>
      appended (respond ns protocol (Rejected mr) res) = appended res @ [(js ''Set-Cookie'', cookie mr)])
   \<and> (truthy (body mr) \<and> cookie mr = Undefined \<longrightarrow>
      appended (respond ns protocol (Rejected mr) res) = appended res @ [(js ''Set-Cookie'', Undefined)])
   \<and> (cookie mr = Arr cs \<and> cs \<noteq> [] \<and> protocol = js ''https'' \<longrightarrow>
      appended (respond ns protocol (Resolved mr) res)
        = appended res @ [(js ''Set-Cookie'',
             Arr (map (\<lambda>c. Str (ToString ns c @ js ''; SameSite=None; Secure'')) cs))])
   \<and> (cookie mr = Arr cs \<and> cs \<noteq> [] \<and> protocol \<noteq> js ''https'' \<longrightarrow>
      appended (respond ns protocol (Resolved mr) res) = appended res @ [(js ''Set-Cookie'', Arr cs)])
   \<and> ((\<forall>xs. cookie mr = Arr xs \<longrightarrow> xs = []) \<longrightarrow>
      appended (respond ns protocol (Resolved mr) res) = appended res)
   \<and> ToString ns (Str s) @ js ''; SameSite=None; Secure'' = s @ js ''; SameSite=None; Secure''"
proof (intro conjI impI)
  assume "truthy (body mr)"
  then show "appended (respond ns protocol (Rejected mr) res) = appended res @ [(js ''Set-Cookie'', cookie mr)]"
    by (simp add: respond_def failure_path_def res_send_def res_status_def res_append_def Let_def)
next
  assume "truthy (body mr) \<and> cookie mr = Undefined"
  then show "appended (respond ns protocol (Rejected mr) res) = appended res @ [(js ''Set-Cookie'', Undefined)]"
    by (simp add: respond_def failure_path_def res_send_def res_status_def res_append_def Let_def)
next
  assume "cookie mr = Arr cs \<and> cs \<noteq> [] \<and> protocol = js ''https''"
  then show "appended (respond ns protocol (Resolved mr) res)
        = appended res @ [(js ''Set-Cookie'',
             Arr (map (\<lambda>c. Str (ToString ns c @ js ''; SameSite=None; Secure'')) cs))]"
    by (simp add: respond_def success_path_def res_send_def res_status_def res_append_def Let_def)
next
  assume "cookie mr = Arr cs \<and> cs \<noteq> [] \<and> protocol \<noteq> js ''https''"
  then show "appended (respond ns protocol (Resolved mr) res) = appended res @ [(js ''Set-Cookie'', Arr cs)]"
    by (simp add: respond_def success_path_def res_send_def res_status_def res_append_def Let_def)
next
  assume "\<forall>xs. cookie mr = Arr xs \<longrightarrow> xs = []"
  then show "appended (respond ns protocol (Resolved mr) res) = appended res"
    by (cases "cookie mr")
       (simp_all add: respond_def success_path_def res_send_def res_status_def res_append_def Let_def)
next
  show "ToString ns (Str s) @ js ''; SameSite=None; Secure'' = s @ js ''; SameSite=None; Secure''"
    by simp
qed


theorem C10_failure_cookie_witness:
  "truthy (Str (js ''x''))
   \<and> appended (respond (\<lambda>n. []) (js ''https'')
         (Rejected \<lparr>status = Num (Fin 500), body = Str (js ''x''), cookie = Arr [Str (js ''a=b'')]\<rparr>)
         \<lparr>statusCode = Num (Fin 200), appended = [], sent = []\<rparr>)
       = [(js ''Set-Cookie'', Arr [Str (js ''a=b'')])]
   \<and> appended (respond (\<lambda>n. []) (js ''https'')
         (Rejected \<lparr>status = Num (Fin 500), body = Str (js ''x''), cookie = Undefined\<rparr>)
         \<lparr>statusCode = Num (Fin 200), appended = [], sent = []\<rparr>)
       = [(js ''Set-Cookie'', Undefined)]
   \<and> appended (respond (\<lambda>n. []) (js ''https'')
         (Resolved \<lparr>status = Num (Fin 200), body = Str (js ''x''), cookie = Arr [Str (js ''a=b'')]\<rparr>)
         \<lparr>statusCode = Num (Fin 200), appended = [], sent = []\<rparr>)
       = [(js ''Set-Cookie'', Arr [Str (js ''a=b; SameSite=None; Secure'')])]
   \<and> appended (respond (\<lambda>n. []) (js ''http'')
         (Resolved \<lparr>status = Num (Fin 200), body = Str (js ''x''), cookie = Arr [Str (js ''a=b'')]\<rparr>)
         \<lparr>statusCode = Num (Fin 200), appended = [], sent = []\<rparr>)
       = [(js ''Set-Cookie'', Arr [Str (js ''a=b'')])]
   \<and> appended (respond (\<lambda>n. []) (js ''https'')
         (Resolved \<lparr>status = Num (Fin 200), body = Str (js ''x''), cookie = Undefined\<rparr>)
         \<lparr>statusCode = Num (Fin 200), appended = [], sent = []\<rparr>)
       = []"
proof -
  let ?res = "\<lparr>statusCode = Num (Fin 200), appended = [], sent = []\<rparr>"
  let ?f1 = "\<lparr>status = Num (Fin 500), body = Str (js ''x''), cookie = Arr [Str (js ''a=b'')]\<rparr>"
  let ?f2 = "\<lparr>status = Num (Fin 500), body = Str (js ''x''), cookie = Undefined\<rparr>"
  let ?s1 = "\<lparr>status = Num (Fin 200), body = Str (js ''x''), cookie = Arr [Str (js ''a=b'')]\<rparr>"
  let ?s2 = "\<lparr>status = Num (Fin 200), body = Str (js ''x''), cookie = Undefined\<rparr>"
  have t: "truthy (Str (js ''x''))" by (simp add: js_def)
  have "appended (respond (\<lambda>n. []) (js ''https'') (Rejected ?f1) ?res) = [(js ''Set-Cookie'', Arr [Str (js ''a=b'')])]"
    using C10_failure_cookie[of ?f1 "\<lambda>n. []" "js ''https''" ?res] t by simp
  moreover
  have "appended (respond (\<lambda>n. []) (js ''https'') (Rejected ?f2) ?res) = [(js ''Set-Cookie'', Undefined)]"
    using C10_failure_cookie[of ?f2 "\<lambda>n. []" "js ''https''" ?res] t by simp
  moreover
  have "appended (respond (\<lambda>n. []) (js ''https'') (Resolved ?s1) ?res)
          = [(js ''Set-Cookie'', Arr [Str (js ''a=b; SameSite=None; Secure'')])]"
    using C10_failure_cookie[of ?s1 "\<lambda>n. []" "js ''https''" ?res "[Str (js ''a=b'')]"]
    by (simp add: js_def)
  moreover
  have "appended (respond (\<lambda>n. []) (js ''http'') (Resolved ?s1) ?res) = [(js ''Set-Cookie'', Arr [Str (js ''a=b'')])]"
    using C10_failure_cookie[of ?s1 "\<lambda>n. []" "js ''http''" ?res "[Str (js ''a=b'')]"]
    by (simp add: js_def)
  moreover
  have "appended (respond (\<lambda>n. []) (js ''https'') (Resolved ?s2) ?res) = []"
    using C10_failure_cookie[of ?s2 "\<lambda>n. []" "js ''https''" ?res] by simp
  ultimately show ?thesis using t by simp
qed



section \<open>Properties of the parameters and of the outbound call\<close>

lemma map_of_assign_prop:
  "map_of (assign_prop kvs k v) k' = (if k' = k then Some v else map_of kvs k')"
  by (induction kvs) auto

lemma object_set_own:
  assumes "k' \<noteq> js ''__proto__''"
  shows "map_of (own_properties (object_set t k v)) k'
           = (if k' = k then Some v else map_of (own_properties t) k')"
proof (cases "k = js ''__proto__'' \<and> k \<notin> fst ` set (own_properties t)
                \<and> reaches_accessor (prototype t)")
  case True
  with assms have "k' \<noteq> k" by simp
  moreover from True have "own_properties (object_set t k v) = own_properties t"
    by (cases v) (auto simp: object_set_def)
  ultimately show ?thesis by simp
next
  case False
  then have "own_properties (object_set t k v) = assign_prop (own_properties t) k v"
    by (auto simp: object_set_def)
  then show ?thesis by (simp add: map_of_assign_prop)
qed

lemma object_set_prototype:
  "k \<noteq> js ''__proto__'' \<Longrightarrow> prototype (object_set t k v) = prototype t"
  by (simp add: object_set_def)

lemma fold_object_set_own:
  assumes "k' \<noteq> js ''__proto__''"
  shows "map_of (own_properties (fold (\<lambda>k t. object_set t k (f k)) ks t)) k'
           = (if k' \<in> set ks then Some (f k') else map_of (own_properties t) k')"
proof (induction ks arbitrary: t)
  case Nil
  then show ?case by simp
next
  case (Cons a ks)
  show ?case
    using Cons.IH[of "object_set t a (f a)"] object_set_own[OF assms, of t a "f a"]
    by auto
qed

lemma fold_object_set_prototype:
  "js ''__proto__'' \<notin> set ks \<Longrightarrow>
   prototype (fold (\<lambda>k t. object_set t k (f k)) ks t) = prototype t"
  by (induction ks arbitrary: t) (auto simp: object_set_prototype)

lemma assign_from_own:
  assumes "k \<noteq> js ''__proto__''"
  shows "map_of (own_properties (assign_from src t)) k
           = (if k \<in> fst ` set (own_props src) then Some (get_prop src k)
              else map_of (own_properties t) k)"
  using fold_object_set_own[OF assms, of "get_prop src" "map fst (own_props src)" t]
  by (simp add: assign_from_def)

lemma assign_from_prototype:
  "js ''__proto__'' \<notin> fst ` set (own_props src) \<Longrightarrow> prototype (assign_from src t) = prototype t"
  using fold_object_set_prototype[of "map fst (own_props src)" "get_prop src" t]
  by (simp add: assign_from_def)

lemma assemble_unfold:
  "assemble req =
     assign_from (req_files req)
       (assign_from (req_body req)
         (assign_from (req_query req)
           (assign_from (Obj [(js ''cookie'', Obj (req_cookies req))])
              \<lparr>own_properties = [], prototype = None\<rparr>)))"
  by (simp add: assemble_def object_assign_def)

lemma cookie_is_not_proto: "js ''cookie'' \<noteq> js ''__proto__''"
  by (simp add: js_def)

text \<open>
  C5, as stated, fails: a body \<open>{"__proto__": {"admin": true}}\<close>, as \<open>express.json()\<close>
  delivers it, has the key \<open>__proto__\<close>, but the parameters assembled from it have no
  such property: \<open>Object.assign\<close> runs the inherited accessor, and the value becomes
  the prototype of the parameters.
\<close>

theorem C5_counterexample:
  "get_prop (Obj [(js ''__proto__'', Obj [(js ''admin'', Bool True)])]) (js ''__proto__'')
     = Obj [(js ''admin'', Bool True)]
   \<and> map_of (own_properties
         (assemble \<lparr>req_cookies = [], req_query = Obj [],
                    req_body = Obj [(js ''__proto__'', Obj [(js ''admin'', Bool True)])],
                    req_files = Undefined,
                    req_ip = js ''127.0.0.1'', req_protocol = js ''http''\<rparr>)) (js ''__proto__'')
     = None
   \<and> assemble \<lparr>req_cookies = [], req_query = Obj [],
                req_body = Obj [(js ''__proto__'', Obj [(js ''admin'', Bool True)])],
                req_files = Undefined,
                req_ip = js ''127.0.0.1'', req_protocol = js ''http''\<rparr>
     = \<lparr>own_properties = [(js ''cookie'', Obj [])],
        prototype = Some (Obj [(js ''admin'', Bool True)])\<rparr>"
  by (simp add: assemble_def object_assign_def assign_from_def object_set_def get_prop_def
        lookup_def is_index_def js_def)

text \<open>
  C5, amended. For every key other than \<open>__proto__\<close>, the parameters handed to the
  module have the key as an own property exactly when \<open>{cookie: req.cookies}\<close>, the
  query, the body or the uploaded files have it, with the value of the last of these
  that has it: the files before the body, the body before the query, the query before
  the parsed cookies. When none of the query, the body and the files has a key
  \<open>__proto__\<close>, the parameters keep the prototype of a plain object. With the cookies
  \<open>{a: '1'}\<close>, the query \<open>{a: '2'}\<close>, the body \<open>{a: '3'}\<close> and the files \<open>{a: '4'}\<close>,
  \<open>a\<close> is \<open>'4'\<close>.
\<close>

theorem C5_merge_precedence:
  "(k \<noteq> js ''__proto__'' \<longrightarrow>
      map_of (own_properties (assemble req)) k =
        (if k \<in> fst ` set (own_props (req_files req)) then Some (get_prop (req_files req) k)
         else if k \<in> fst ` set (own_props (req_body req)) then Some (get_prop (req_body req) k)
         else if k \<in> fst ` set (own_props (req_query req)) then Some (get_prop (req_query req) k)
         else if k = js ''cookie'' then Some (Obj (req_cookies req))
         else None))
   \<and> (js ''__proto__'' \<notin> fst ` set (own_props (req_query req))
        \<and> js ''__proto__'' \<notin> fst ` set (own_props (req_body req))
        \<and> js ''__proto__'' \<notin> fst ` set (own_props (req_files req))
      \<longrightarrow> prototype (assemble req) = None)
   \<and> map_of (own_properties
         (assemble \<lparr>req_cookies = [(js ''a'', Str (js ''1''))],
                    req_query = Obj [(js ''a'', Str (js ''2''))],
                    req_body = Obj [(js ''a'', Str (js ''3''))],
                    req_files = Obj [(js ''a'', Str (js ''4''))],
                    req_ip = ip, req_protocol = protocol\<rparr>)) (js ''a'')
       = Some (Str (js ''4''))"
proof (intro conjI impI)
  assume k: "k \<noteq> js ''__proto__''"
  have "map_of (own_properties
          (assign_from (Obj [(js ''cookie'', Obj (req_cookies req))])
             \<lparr>own_properties = [], prototype = None\<rparr>)) k
        = (if k = js ''cookie'' then Some (Obj (req_cookies req)) else None)"
    using assign_from_own[OF k, of "Obj [(js ''cookie'', Obj (req_cookies req))]"
            "\<lparr>own_properties = [], prototype = None\<rparr>"]
    by (simp add: get_prop_def lookup_def)
  then show "map_of (own_properties (assemble req)) k =
        (if k \<in> fst ` set (own_props (req_files req)) then Some (get_prop (req_files req) k)
         else if k \<in> fst ` set (own_props (req_body req)) then Some (get_prop (req_body req) k)
         else if k \<in> fst ` set (own_props (req_query req)) then Some (get_prop (req_query req) k)
         else if k = js ''cookie'' then Some (Obj (req_cookies req))
         else None)"
    by (simp only: assemble_unfold assign_from_own[OF k])
next
  assume "js ''__proto__'' \<notin> fst ` set (own_props (req_query req))
        \<and> js ''__proto__'' \<notin> fst ` set (own_props (req_body req))
        \<and> js ''__proto__'' \<notin> fst ` set (own_props (req_files req))"
  moreover have "js ''__proto__'' \<notin> fst ` set (own_props (Obj [(js ''cookie'', Obj (req_cookies req))]))"
    using cookie_is_not_proto by simp
  ultimately show "prototype (assemble req) = None"
    by (simp add: assemble_unfold assign_from_prototype del: own_props.simps)
next
  show "map_of (own_properties
         (assemble \<lparr>req_cookies = [(js ''a'', Str (js ''1''))],
                    req_query = Obj [(js ''a'', Str (js ''2''))],
                    req_body = Obj [(js ''a'', Str (js ''3''))],
                    req_files = Obj [(js ''a'', Str (js ''4''))],
                    req_ip = ip, req_protocol = protocol\<rparr>)) (js ''a'')
       = Some (Str (js ''4''))"
    by (simp add: assemble_def object_assign_def assign_from_def object_set_def get_prop_def
          lookup_def is_index_def js_def)
qed

theorem C5_merge_precedence_witness:
  "js ''a'' \<noteq> js ''__proto__''
   \<and> js ''a'' \<in> fst ` set (own_props (Obj [(js ''a'', Str (js ''4''))]))
   \<and> map_of (own_properties
         (assemble \<lparr>req_cookies = [(js ''a'', Str (js ''1''))],
                    req_query = Obj [(js ''a'', Str (js ''2''))],
                    req_body = Obj [(js ''a'', Str (js ''3''))],
                    req_files = Obj [(js ''a'', Str (js ''4''))],
                    req_ip = js ''127.0.0.1'', req_protocol = js ''http''\<rparr>)) (js ''a'')
       = Some (get_prop (Obj [(js ''a'', Str (js ''4''))]) (js ''a''))
   \<and> prototype
         (assemble \<lparr>req_cookies = [(js ''a'', Str (js ''1''))],
                    req_query = Obj [(js ''a'', Str (js ''2''))],
                    req_body = Obj [(js ''a'', Str (js ''3''))],
                    req_files = Obj [(js ''a'', Str (js ''4''))],
                    req_ip = js ''127.0.0.1'', req_protocol = js ''http''\<rparr>)
       = None"
proof -
  let ?req = "\<lparr>req_cookies = [(js ''a'', Str (js ''1''))],
                    req_query = Obj [(js ''a'', Str (js ''2''))],
                    req_body = Obj [(js ''a'', Str (js ''3''))],
                    req_files = Obj [(js ''a'', Str (js ''4''))],
                    req_ip = js ''127.0.0.1'', req_protocol = js ''http''\<rparr>"
  have k: "js ''a'' \<noteq> js ''__proto__''" by (simp add: js_def)
  have f: "js ''a'' \<in> fst ` set (own_props (req_files ?req))" by simp
  have p: "js ''__proto__'' \<notin> fst ` set (own_props (req_query ?req))
        \<and> js ''__proto__'' \<notin> fst ` set (own_props (req_body ?req))
        \<and> js ''__proto__'' \<notin> fst ` set (own_props (req_files ?req))"
    by (simp add: js_def)
  note c5 = C5_merge_precedence[of "js ''a''" ?req]
  from c5 k have "map_of (own_properties (assemble ?req)) (js ''a'') =
        (if js ''a'' \<in> fst ` set (own_props (req_files ?req))
         then Some (get_prop (req_files ?req) (js ''a''))
         else if js ''a'' \<in> fst ` set (own_props (req_body ?req))
         then Some (get_prop (req_body ?req) (js ''a''))
         else if js ''a'' \<in> fst ` set (own_props (req_query ?req))
         then Some (get_prop (req_query ?req) (js ''a''))
         else if js ''a'' = js ''cookie'' then Some (Obj (req_cookies ?req))
         else None)"
    by blast
  with f have a: "map_of (own_properties (assemble ?req)) (js ''a'')
      = Some (get_prop (req_files ?req) (js ''a''))"
    by (simp only: if_True)
  from c5 p have b: "prototype (assemble ?req) = None" by blast
  from a b k f show ?thesis by simp
qed

lemma cookie_field_to_json_string:
  assumes "get_prop item (js ''cookie'') = Str s"
  shows "get_prop (cookie_field_to_json decode cookieToJson item) (js ''cookie'') = cookieToJson (decode s)"
    and "k \<noteq> js ''cookie'' \<Longrightarrow>
         get_prop (cookie_field_to_json decode cookieToJson item) k = get_prop item k"
proof -
  from assms obtain kvs where item: "item = Obj kvs"
    by (cases item) (simp_all add: get_prop_cookie)
  show "get_prop (cookie_field_to_json decode cookieToJson item) (js ''cookie'') = cookieToJson (decode s)"
    using assms unfolding item
    by (simp add: cookie_field_to_json_def) (simp add: get_prop_def lookup_assign_prop)
  show "get_prop (cookie_field_to_json decode cookieToJson item) k = get_prop item k"
    if "k \<noteq> js ''cookie''"
    using assms that unfolding item
    by (simp add: cookie_field_to_json_def) (simp add: get_prop_def lookup_assign_prop)
qed

lemma cookie_field_to_json_other:
  assumes "\<forall>s. get_prop item (js ''cookie'') \<noteq> Str s"
  shows "cookie_field_to_json decode cookieToJson item = item"
  using assms by (cases "get_prop item (js ''cookie'')") (simp_all add: cookie_field_to_json_def)

text \<open>
  C6. The handler first replaces, in the query and in the body separately, a \<open>cookie\<close>
  field that is a string by \<open>cookieToJson\<close> of the decoded string, every other field
  staying as it was, and leaves a source whose \<open>cookie\<close> field is not a string
  untouched; the request keeps the updated query and body, and the parameters of the
  module are assembled from them.
\<close>

theorem C6_embedded_cookie:
  "\<exists>q b.
     route_handler decode cookieToJson ns request module_fn req res
       = (req\<lparr>req_query := q, req_body := b\<rparr>,
          respond ns (req_protocol req)
            (module_fn (assemble (req\<lparr>req_query := q, req_body := b\<rparr>))
               (\<lambda>params. request (inject_ip (req_ip req) params))) res)
     \<and> (\<forall>s. get_prop (req_query req) (js ''cookie'') = Str s \<longrightarrow>
            get_prop q (js ''cookie'') = cookieToJson (decode s)
            \<and> (\<forall>k. k \<noteq> js ''cookie'' \<longrightarrow> get_prop q k = get_prop (req_query req) k))
     \<and> ((\<forall>s. get_prop (req_query req) (js ''cookie'') \<noteq> Str s) \<longrightarrow> q = req_query req)
     \<and> (\<forall>s. get_prop (req_body req) (js ''cookie'') = Str s \<longrightarrow>
            get_prop b (js ''cookie'') = cookieToJson (decode s)
            \<and> (\<forall>k. k \<noteq> js ''cookie'' \<longrightarrow> get_prop b k = get_prop (req_body req) k))
     \<and> ((\<forall>s. get_prop (req_body req) (js ''cookie'') \<noteq> Str s) \<longrightarrow> b = req_body req)"
proof (intro exI conjI)
  let ?q = "cookie_field_to_json decode cookieToJson (req_query req)"
  let ?b = "cookie_field_to_json decode cookieToJson (req_body req)"
  show "route_handler decode cookieToJson ns request module_fn req res
       = (req\<lparr>req_query := ?q, req_body := ?b\<rparr>,
          respond ns (req_protocol req)
            (module_fn (assemble (req\<lparr>req_query := ?q, req_body := ?b\<rparr>))
               (\<lambda>params. request (inject_ip (req_ip req) params))) res)"
    by (simp add: route_handler_def Let_def)
  show "\<forall>s. get_prop (req_query req) (js ''cookie'') = Str s \<longrightarrow>
            get_prop ?q (js ''cookie'') = cookieToJson (decode s)
            \<and> (\<forall>k. k \<noteq> js ''cookie'' \<longrightarrow> get_prop ?q k = get_prop (req_query req) k)"
    by (simp add: cookie_field_to_json_string)
  show "(\<forall>s. get_prop (req_query req) (js ''cookie'') \<noteq> Str s) \<longrightarrow> ?q = req_query req"
    by (simp add: cookie_field_to_json_other)
  show "\<forall>s. get_prop (req_body req) (js ''cookie'') = Str s \<longrightarrow>
            get_prop ?b (js ''cookie'') = cookieToJson (decode s)
            \<and> (\<forall>k. k \<noteq> js ''cookie'' \<longrightarrow> get_prop ?b k = get_prop (req_body req) k)"
    by (simp add: cookie_field_to_json_string)
  show "(\<forall>s. get_prop (req_body req) (js ''cookie'') \<noteq> Str s) \<longrightarrow> ?b = req_body req"
    by (simp add: cookie_field_to_json_other)
qed


theorem C6_embedded_cookie_witness:
  "get_prop (Obj [(js ''cookie'', Str (js ''a=1'')), (js ''id'', Str (js ''5''))]) (js ''cookie'') = Str (js ''a=1'')
   \<and> get_prop (Obj [(js ''id'', Str (js ''6''))]) (js ''cookie'') = Undefined
   \<and> route_handler (\<lambda>s. s) (\<lambda>s. Obj [(js ''parsed'', Str s)]) (\<lambda>n. []) (\<lambda>args. args)
       (\<lambda>q call. Resolved \<lparr>status = Num (Fin 200), body = Obj (own_properties q), cookie = Undefined\<rparr>)
       \<lparr>req_cookies = [], req_query = Obj [(js ''cookie'', Str (js ''a=1'')), (js ''id'', Str (js ''5''))],
        req_body = Obj [(js ''id'', Str (js ''6''))], req_files = Undefined,
        req_ip = js ''127.0.0.1'', req_protocol = js ''http''\<rparr>
       \<lparr>statusCode = Num (Fin 200), appended = [], sent = []\<rparr>
     = (\<lparr>req_cookies = [],
         req_query = Obj [(js ''cookie'', Obj [(js ''parsed'', Str (js ''a=1''))]), (js ''id'', Str (js ''5''))],
         req_body = Obj [(js ''id'', Str (js ''6''))], req_files = Undefined,
         req_ip = js ''127.0.0.1'', req_protocol = js ''http''\<rparr>,
        \<lparr>statusCode = Num (Fin 200), appended = [],
         sent = [Obj [(js ''cookie'', Obj [(js ''parsed'', Str (js ''a=1''))]), (js ''id'', Str (js ''6''))]]\<rparr>)
   \<and> get_prop (Obj [(js ''cookie'', Num (Fin 7))]) (js ''cookie'') = Num (Fin 7)
   \<and> get_prop (Obj [(js ''cookie'', Str (js ''b=2''))]) (js ''cookie'') = Str (js ''b=2'')
   \<and> fst (route_handler (\<lambda>s. s) (\<lambda>s. Obj [(js ''parsed'', Str s)]) (\<lambda>n. []) (\<lambda>args. args)
       (\<lambda>q call. Resolved \<lparr>status = Num (Fin 200), body = Obj (own_properties q), cookie = Undefined\<rparr>)
       \<lparr>req_cookies = [], req_query = Obj [(js ''cookie'', Num (Fin 7))],
        req_body = Obj [(js ''cookie'', Str (js ''b=2''))], req_files = Undefined,
        req_ip = js ''127.0.0.1'', req_protocol = js ''http''\<rparr>
       \<lparr>statusCode = Num (Fin 200), appended = [], sent = []\<rparr>)
     = \<lparr>req_cookies = [], req_query = Obj [(js ''cookie'', Num (Fin 7))],
        req_body = Obj [(js ''cookie'', Obj [(js ''parsed'', Str (js ''b=2''))])], req_files = Undefined,
        req_ip = js ''127.0.0.1'', req_protocol = js ''http''\<rparr>"
proof -
  let ?req = "\<lparr>req_cookies = [], req_query = Obj [(js ''cookie'', Str (js ''a=1'')), (js ''id'', Str (js ''5''))],
        req_body = Obj [(js ''id'', Str (js ''6''))], req_files = Undefined,
        req_ip = js ''127.0.0.1'', req_protocol = js ''http''\<rparr>"
  let ?req' = "\<lparr>req_cookies = [], req_query = Obj [(js ''cookie'', Num (Fin 7))],
        req_body = Obj [(js ''cookie'', Str (js ''b=2''))], req_files = Undefined,
        req_ip = js ''127.0.0.1'', req_protocol = js ''http''\<rparr>"
  let ?m = "\<lambda>(q::fresh_object) (call::jsval list \<Rightarrow> jsval list). Resolved \<lparr>status = Num (Fin 200), body = Obj (own_properties q), cookie = Undefined\<rparr>"
  let ?c2j = "\<lambda>s. Obj [(js ''parsed'', Str s)]"
  let ?res = "\<lparr>statusCode = Num (Fin 200), appended = [], sent = []\<rparr>"
  have hq: "get_prop (req_query ?req) (js ''cookie'') = Str (js ''a=1'')"
    by (simp add: get_prop_def lookup_def js_def)
  have hb: "get_prop (req_body ?req) (js ''cookie'') = Undefined"
    by (simp add: get_prop_def lookup_def js_def)
  have hq': "get_prop (req_query ?req') (js ''cookie'') = Num (Fin 7)"
    by (simp add: get_prop_def lookup_def js_def)
  have hb': "get_prop (req_body ?req') (js ''cookie'') = Str (js ''b=2'')"
    by (simp add: get_prop_def lookup_def js_def)
  from C6_embedded_cookie[of "\<lambda>s. s" ?c2j "\<lambda>n. []" "\<lambda>args. args" ?m ?req ?res]
  obtain q b where "route_handler (\<lambda>s. s) ?c2j (\<lambda>n. []) (\<lambda>args. args) ?m ?req ?res
       = (?req\<lparr>req_query := q, req_body := b\<rparr>,
          respond (\<lambda>n. []) (req_protocol ?req)
            (?m (assemble (?req\<lparr>req_query := q, req_body := b\<rparr>))
               (\<lambda>params. inject_ip (req_ip ?req) params)) ?res)"
    and q1: "get_prop q (js ''cookie'') = ?c2j (js ''a=1'')"
    and b1: "b = req_body ?req"
    using hq hb by auto
  from C6_embedded_cookie[of "\<lambda>s. s" ?c2j "\<lambda>n. []" "\<lambda>args. args" ?m ?req' ?res]
  obtain q' b' where "route_handler (\<lambda>s. s) ?c2j (\<lambda>n. []) (\<lambda>args. args) ?m ?req' ?res
       = (?req'\<lparr>req_query := q', req_body := b'\<rparr>,
          respond (\<lambda>n. []) (req_protocol ?req')
            (?m (assemble (?req'\<lparr>req_query := q', req_body := b'\<rparr>))
               (\<lambda>params. inject_ip (req_ip ?req') params)) ?res)"
    and q2: "q' = req_query ?req'"
    and b2: "get_prop b' (js ''cookie'') = ?c2j (js ''b=2'')"
    using hq' hb' by auto
  have first: "route_handler (\<lambda>s. s) ?c2j (\<lambda>n. []) (\<lambda>args. args) ?m ?req ?res
     = (\<lparr>req_cookies = [],
         req_query = Obj [(js ''cookie'', Obj [(js ''parsed'', Str (js ''a=1''))]), (js ''id'', Str (js ''5''))],
         req_body = Obj [(js ''id'', Str (js ''6''))], req_files = Undefined,
         req_ip = js ''127.0.0.1'', req_protocol = js ''http''\<rparr>,
        \<lparr>statusCode = Num (Fin 200), appended = [],
         sent = [Obj [(js ''cookie'', Obj [(js ''parsed'', Str (js ''a=1''))]), (js ''id'', Str (js ''6''))]]\<rparr>)"
    using q1 b1
    by (simp add: route_handler_def cookie_field_to_json_def assemble_def object_assign_def
          assign_from_def object_set_def respond_def success_path_def res_send_def res_status_def
          get_prop_def lookup_def is_index_def js_def)
  have second: "fst (route_handler (\<lambda>s. s) ?c2j (\<lambda>n. []) (\<lambda>args. args) ?m ?req' ?res)
     = \<lparr>req_cookies = [], req_query = Obj [(js ''cookie'', Num (Fin 7))],
        req_body = Obj [(js ''cookie'', Obj [(js ''parsed'', Str (js ''b=2''))])], req_files = Undefined,
        req_ip = js ''127.0.0.1'', req_protocol = js ''http''\<rparr>"
    using q2 b2
    by (simp add: route_handler_def Let_def cookie_field_to_json_def get_prop_def lookup_def js_def)
  from hq hb hq' hb' first second show ?thesis by simp
qed

lemma array_set_length: "length (array_set xs i v) = max (Suc i) (length xs)"
  by (auto simp: array_set_def)

lemma array_get_set: "array_get (array_set xs i v) j = (if j = i then v else array_get xs j)"
  by (auto simp: array_get_def array_set_def nth_append nth_Cons')

text \<open>
  C7. The wrapper passed to the module hands its arguments to the outbound client with
  the fourth one replaced by an object that has the properties of the former fourth
  argument and \<open>ip\<close> set to the client address; the arguments at the other positions
  are unchanged, and a shorter argument list is extended to four. The client address is
  \<open>req.ip\<close> without a leading \<open>::ffff:\<close>, and \<open>req.ip\<close> itself when it has no such
  prefix: \<open>::ffff:127.0.0.1\<close> becomes \<open>127.0.0.1\<close>, and \<open>127.0.0.1\<close> stays.
\<close>

theorem C7_client_ip:
  "length (inject_ip ip params) = max 4 (length params)
   \<and> (\<forall>i. i \<noteq> 3 \<longrightarrow> array_get (inject_ip ip params) i = array_get params i)
   \<and> get_prop (array_get (inject_ip ip params) 3) (js ''ip'') = Str (client_ip ip)
   \<and> (\<forall>k. k \<noteq> js ''ip'' \<longrightarrow>
         get_prop (array_get (inject_ip ip params) 3) k = get_prop (array_get params 3) k)
   \<and> client_ip (js ''::ffff:'' @ rest) = rest
   \<and> (take 7 ip \<noteq> js ''::ffff:'' \<longrightarrow> client_ip ip = ip)
   \<and> client_ip (js ''::ffff:127.0.0.1'') = js ''127.0.0.1''
   \<and> client_ip (js ''127.0.0.1'') = js ''127.0.0.1''
   \<and> snd (route_handler decode cookieToJson ns request (\<lambda>query call. settle (call params)) req res)
       = respond ns (req_protocol req) (settle (request (inject_ip (req_ip req) params))) res"
proof (intro conjI allI impI)
  show "length (inject_ip ip params) = max 4 (length params)"
    by (simp add: inject_ip_def array_set_length)
  show "array_get (inject_ip ip params) i = array_get params i" if "i \<noteq> 3" for i
    using that by (simp add: inject_ip_def array_get_set)
  show "get_prop (array_get (inject_ip ip params) 3) (js ''ip'') = Str (client_ip ip)"
    by (simp add: inject_ip_def array_get_set get_prop_def lookup_assign_prop)
  show "get_prop (array_get (inject_ip ip params) 3) k = get_prop (array_get params 3) k"
    if "k \<noteq> js ''ip''" for k
    using that by (simp add: inject_ip_def array_get_set get_prop_def lookup_assign_prop)
  show "client_ip (js ''::ffff:'' @ rest) = rest"
    by (simp add: client_ip_def js_def)
  show "client_ip ip = ip" if "take 7 ip \<noteq> js ''::ffff:''"
    using that by (simp add: client_ip_def)
  show "client_ip (js ''::ffff:127.0.0.1'') = js ''127.0.0.1''"
    by (simp add: client_ip_def js_def)
  show "client_ip (js ''127.0.0.1'') = js ''127.0.0.1''"
    by (simp add: client_ip_def js_def)
  show "snd (route_handler decode cookieToJson ns request (\<lambda>query call. settle (call params)) req res)
       = respond ns (req_protocol req) (settle (request (inject_ip (req_ip req) params))) res"
    by (simp add: route_handler_def Let_def)
qed

theorem C7_client_ip_witness:
  "inject_ip (js ''::ffff:127.0.0.1'') [Str (js ''POST''), Str (js ''url'')]
     = [Str (js ''POST''), Str (js ''url''), Undefined, Obj [(js ''ip'', Str (js ''127.0.0.1''))]]
   \<and> inject_ip (js ''10.0.0.7'')
         [Str (js ''POST''), Str (js ''url''), Obj [], Obj [(js ''crypto'', Str (js ''weapi''))], Null]
     = [Str (js ''POST''), Str (js ''url''), Obj [],
        Obj [(js ''crypto'', Str (js ''weapi'')), (js ''ip'', Str (js ''10.0.0.7''))], Null]
   \<and> take 7 (js ''10.0.0.7'') \<noteq> js ''::ffff:''
   \<and> client_ip (js ''10.0.0.7'') = js ''10.0.0.7''"
proof -
  let ?p = "[Str (js ''POST''), Str (js ''url''), Obj [], Obj [(js ''crypto'', Str (js ''weapi''))], Null]"
  have h: "take 7 (js ''10.0.0.7'') \<noteq> js ''::ffff:''" by (simp add: js_def)
  have k: "js ''crypto'' \<noteq> js ''ip''" by (simp add: js_def)
  note c7 = C7_client_ip[of "js ''10.0.0.7''" ?p]
  from c7 h have ip: "client_ip (js ''10.0.0.7'') = js ''10.0.0.7''" by blast
  from c7 k have "get_prop (array_get (inject_ip (js ''10.0.0.7'') ?p) 3) (js ''crypto'')
      = get_prop (array_get ?p 3) (js ''crypto'')" by blast
  have "(4::nat) \<noteq> 3" by simp
  with c7 have "array_get (inject_ip (js ''10.0.0.7'') ?p) 4 = array_get ?p 4" by blast
  have a: "inject_ip (js ''::ffff:127.0.0.1'') [Str (js ''POST''), Str (js ''url'')]
     = [Str (js ''POST''), Str (js ''url''), Undefined, Obj [(js ''ip'', Str (js ''127.0.0.1''))]]"
    by (simp add: inject_ip_def array_set_def array_get_def client_ip_def js_def)
  have b: "inject_ip (js ''10.0.0.7'') ?p
     = [Str (js ''POST''), Str (js ''url''), Obj [],
        Obj [(js ''crypto'', Str (js ''weapi'')), (js ''ip'', Str (js ''10.0.0.7''))], Null]"
    using ip by (simp add: inject_ip_def array_set_def array_get_def) (simp add: is_index_def js_def)
  from a b h ip show ?thesis by simp
qed



section \<open>Properties of the cookie-parsing middleware\<close>

lemma match_delimiter_no_ws:
  assumes "\<forall>x\<in>set (c # cs). \<not> is_ws x"
  shows "match_delimiter prev (c # cs) = None"
proof -
  from assms have "takeWhile is_ws cs = []" by (cases cs) simp_all
  with assms show ?thesis by (simp add: match_delimiter_def)
qed

lemma split_cookie_no_ws:
  "\<forall>x\<in>set h. \<not> is_ws x \<Longrightarrow> split_cookie prev piece h = [piece @ h]"
proof (induction h arbitrary: prev piece)
  case Nil
  then show ?case by simp
next
  case (Cons c cs)
  from Cons.prems have "match_delimiter prev (c # cs) = None" by (rule match_delimiter_no_ws)
  moreover from Cons.prems have "\<forall>x\<in>set cs. \<not> is_ws x" by simp
  then have "split_cookie (Some c) (piece @ [c]) cs = [(piece @ [c]) @ cs]" by (rule Cons.IH)
  ultimately show ?case by simp
qed

text \<open>
  C1, evaluated on its four examples, for a decoder that leaves a string without a
  percent sign as it is. The header \<open>a=1; b=2\<close> gives \<open>{a: '1', b: '2'}\<close>, and \<open>=1\<close>
  and \<open>a=\<close> give the empty object. The header \<open>a=1;b\<close> is not split, its semicolon
  not being followed by whitespace: it gives \<open>{a: '1;b'}\<close>, not \<open>{a: '1'}\<close>.
\<close>

theorem C1_cookie_parsing:
  assumes "\<forall>s. of_char CHR ''%'' \<notin> set s \<longrightarrow> decode s = s"
  shows "parse_cookies decode (Some (js ''a=1; b=2'')) = [(js ''a'', Str (js ''1'')), (js ''b'', Str (js ''2''))]
     \<and> parse_cookies decode (Some (js ''a=1;b'')) = [(js ''a'', Str (js ''1;b''))]
     \<and> parse_cookies decode (Some (js ''=1'')) = []
     \<and> parse_cookies decode (Some (js ''a='')) = []"
proof -
  have d: "decode s = s" if "37 \<notin> set s" for s
    using assms that by simp
  have "parse_cookies decode (Some (js ''a=1; b=2'')) = [(js ''a'', Str (js ''1'')), (js ''b'', Str (js ''2''))]"
    by (simp add: parse_cookies_def js_def match_delimiter_def is_ws_def store_pair_def trim_def
          is_index_def Let_def d)
  moreover
  have "parse_cookies decode (Some (js ''a=1;b'')) = [(js ''a'', Str (js ''1;b''))]"
    by (simp add: parse_cookies_def js_def match_delimiter_def is_ws_def store_pair_def trim_def
          is_index_def Let_def d)
  moreover
  have "parse_cookies decode (Some (js ''=1'')) = []"
    by (simp add: parse_cookies_def js_def match_delimiter_def is_ws_def store_pair_def)
  moreover
  have "parse_cookies decode (Some (js ''a='')) = []"
    by (simp add: parse_cookies_def js_def match_delimiter_def is_ws_def store_pair_def)
  ultimately show ?thesis by simp
qed

theorem C1_cookie_parsing_witness:
  "parse_cookies (\<lambda>s. s) (Some (js ''a=1; b=2'')) = [(js ''a'', Str (js ''1'')), (js ''b'', Str (js ''2''))]
   \<and> parse_cookies (\<lambda>s. s) (Some (js ''a=1;b'')) = [(js ''a'', Str (js ''1;b''))]
   \<and> parse_cookies (\<lambda>s. s) (Some (js ''=1'')) = []
   \<and> parse_cookies (\<lambda>s. s) (Some (js ''a='')) = []"
proof -
  have "\<forall>s::jsstring. of_char CHR ''%'' \<notin> set s \<longrightarrow> (\<lambda>s. s) s = s" by simp
  from C1_cookie_parsing[OF this] show ?thesis .
qed


section \<open>Properties of the response cache\<close>

lemma cache_middleware_hit:
  "c key = Some e \<Longrightarrow> now < expires e \<Longrightarrow>
   cache_middleware now key produced c = (stored e, False, c)"
  by (simp add: cache_middleware_def)

lemma cache_middleware_miss:
  "c key = None \<or> (\<exists>e. c key = Some e \<and> expires e \<le> now) \<Longrightarrow>
   cache_middleware now key produced c =
     (produced, True,
      if cache_toggle produced
      then c(key \<mapsto> \<lparr>stored = produced, expires = now + cache_duration\<rparr>) else c)"
  by (auto simp: cache_middleware_def)

lemma cache_middleware_other_key:
  "k \<noteq> key \<Longrightarrow> snd (snd (cache_middleware now k produced c)) key = c key"
  by (simp add: cache_middleware_def split: option.splits)

lemma cache_after_keeps_entry:
  assumes "c key = Some e" and "\<forall>r\<in>set rs. fst r < expires e"
  shows "cache_after rs c key = Some e"
  using assms
proof (induction rs arbitrary: c)
  case Nil
  then show ?case by simp
next
  case (Cons r rs)
  obtain t k p where r: "r = (t, k, p)" by (cases r)
  from Cons.prems r have t: "t < expires e" by simp
  have "snd (snd (cache_middleware t k p c)) key = Some e"
  proof (cases "k = key")
    case True
    with Cons.prems(1) t show ?thesis by (simp add: cache_middleware_hit)
  next
    case False
    with Cons.prems(1) show ?thesis by (simp add: cache_middleware_other_key)
  qed
  moreover from Cons.prems(2) have "\<forall>r\<in>set rs. fst r < expires e" by simp
  ultimately have "cache_after rs (snd (snd (cache_middleware t k p c))) key = Some e"
    by (rule Cons.IH)
  then show ?case by (simp add: r)
qed

lemma cache_rejected_unchanged:
  "statusCode produced \<noteq> Num (Fin 200) \<Longrightarrow> snd (snd (cache_middleware now key produced c)) = c"
  by (simp add: cache_middleware_def cache_toggle_def split: option.splits)

text \<open>
  C9. A request that finds no live entry under its key runs the dispatcher. When the
  response has status 200 it is stored for two minutes: whatever other requests arrive
  in between, a request with the same key before the two minutes are over is answered
  with the stored response and the dispatcher is skipped, and a request with that key
  once the two minutes are over runs the dispatcher again. A response with any other
  status leaves the cache as it was, and the next request runs the dispatcher.
\<close>

theorem C9_response_cache:
  assumes "c key = None \<or> (\<exists>e. c key = Some e \<and> expires e \<le> t1)"
  shows "fst (cache_middleware t1 key produced c) = produced
     \<and> fst (snd (cache_middleware t1 key produced c))
     \<and> (statusCode produced = Num (Fin 200) \<and> (\<forall>r\<in>set rs. fst r < t1 + 2 * 60 * 1000)
          \<and> t2 < t1 + 2 * 60 * 1000 \<longrightarrow>
         fst (cache_middleware t2 key produced2
                (cache_after rs (snd (snd (cache_middleware t1 key produced c))))) = produced
         \<and> \<not> fst (snd (cache_middleware t2 key produced2
                (cache_after rs (snd (snd (cache_middleware t1 key produced c)))))))
     \<and> (statusCode produced = Num (Fin 200) \<and> t1 + 2 * 60 * 1000 \<le> t2 \<longrightarrow>
         fst (cache_middleware t2 key produced2 (snd (snd (cache_middleware t1 key produced c))))
           = produced2
         \<and> fst (snd (cache_middleware t2 key produced2
                (snd (snd (cache_middleware t1 key produced c))))))
     \<and> (statusCode produced \<noteq> Num (Fin 200) \<and> t1 \<le> t2 \<longrightarrow>
         snd (snd (cache_middleware t1 key produced c)) = c
         \<and> fst (snd (cache_middleware t2 key produced2
                (snd (snd (cache_middleware t1 key produced c))))))"
proof -
  let ?c1 = "snd (snd (cache_middleware t1 key produced c))"
  let ?e = "\<lparr>stored = produced, expires = t1 + cache_duration\<rparr>"
  have first: "cache_middleware t1 key produced c =
     (produced, True, if cache_toggle produced then c(key \<mapsto> ?e) else c)"
    using assms by (rule cache_middleware_miss)
  have stored_entry: "?c1 key = Some ?e" if "statusCode produced = Num (Fin 200)"
    using that by (simp add: first cache_toggle_def)
  have hit: "fst (cache_middleware t2 key produced2 (cache_after rs ?c1)) = produced
      \<and> \<not> fst (snd (cache_middleware t2 key produced2 (cache_after rs ?c1)))"
    if ok: "statusCode produced = Num (Fin 200)"
      and rs: "\<forall>r\<in>set rs. fst r < t1 + 2 * 60 * 1000"
      and t2: "t2 < t1 + 2 * 60 * 1000"
  proof -
    from rs have "\<forall>r\<in>set rs. fst r < expires ?e" by (simp add: cache_duration_def)
    with stored_entry[OF ok] have "cache_after rs ?c1 key = Some ?e"
      by (rule cache_after_keeps_entry)
    moreover from t2 have "t2 < expires ?e" by (simp add: cache_duration_def)
    ultimately have "cache_middleware t2 key produced2 (cache_after rs ?c1)
        = (stored ?e, False, cache_after rs ?c1)"
      by (rule cache_middleware_hit)
    then show ?thesis by simp
  qed
  have again: "fst (cache_middleware t2 key produced2 ?c1) = produced2
      \<and> fst (snd (cache_middleware t2 key produced2 ?c1))"
    if ok: "statusCode produced = Num (Fin 200)" and t2: "t1 + 2 * 60 * 1000 \<le> t2"
  proof -
    from t2 have "expires ?e \<le> t2" by (simp add: cache_duration_def)
    with stored_entry[OF ok] have "?c1 key = None \<or> (\<exists>e. ?c1 key = Some e \<and> expires e \<le> t2)"
      by blast
    then have "cache_middleware t2 key produced2 ?c1 =
       (produced2, True,
        if cache_toggle produced2
        then ?c1(key \<mapsto> \<lparr>stored = produced2, expires = t2 + cache_duration\<rparr>) else ?c1)"
      by (rule cache_middleware_miss)
    then show ?thesis by simp
  qed
  have rejected: "?c1 = c \<and> fst (snd (cache_middleware t2 key produced2 ?c1))"
    if no: "statusCode produced \<noteq> Num (Fin 200)" and le: "t1 \<le> t2"
  proof -
    from no have same: "?c1 = c" by (rule cache_rejected_unchanged)
    from assms le have "c key = None \<or> (\<exists>e. c key = Some e \<and> expires e \<le> t2)"
      by (auto intro: order_trans)
    then have "cache_middleware t2 key produced2 c =
       (produced2, True,
        if cache_toggle produced2
        then c(key \<mapsto> \<lparr>stored = produced2, expires = t2 + cache_duration\<rparr>) else c)"
      by (rule cache_middleware_miss)
    with same show ?thesis by simp
  qed
  have f1: "fst (cache_middleware t1 key produced c) = produced"
    and f2: "fst (snd (cache_middleware t1 key produced c))"
    by (simp_all add: first)
  from f1 f2 hit again rejected show ?thesis by blast
qed


theorem C9_response_cache_witness:
  "fst (cache_middleware 100000 (js ''/a'') \<lparr>statusCode = Num (Fin 200), appended = [], sent = [Str (js ''y'')]\<rparr>
          (cache_after [(2000, js ''/b'', \<lparr>statusCode = Num (Fin 200), appended = [], sent = [Str (js ''y'')]\<rparr>)]
             (snd (snd (cache_middleware 1000 (js ''/a'')
                \<lparr>statusCode = Num (Fin 200), appended = [], sent = [Str (js ''x'')]\<rparr> Map.empty)))))
     = \<lparr>statusCode = Num (Fin 200), appended = [], sent = [Str (js ''x'')]\<rparr>
   \<and> \<not> fst (snd (cache_middleware 100000 (js ''/a'') \<lparr>statusCode = Num (Fin 200), appended = [], sent = [Str (js ''y'')]\<rparr>
          (cache_after [(2000, js ''/b'', \<lparr>statusCode = Num (Fin 200), appended = [], sent = [Str (js ''y'')]\<rparr>)]
             (snd (snd (cache_middleware 1000 (js ''/a'')
                \<lparr>statusCode = Num (Fin 200), appended = [], sent = [Str (js ''x'')]\<rparr> Map.empty))))))
   \<and> fst (snd (cache_middleware 121000 (js ''/a'') \<lparr>statusCode = Num (Fin 200), appended = [], sent = [Str (js ''y'')]\<rparr>
             (snd (snd (cache_middleware 1000 (js ''/a'')
                \<lparr>statusCode = Num (Fin 200), appended = [], sent = [Str (js ''x'')]\<rparr> Map.empty)))))
   \<and> fst (snd (cache_middleware 2000 (js ''/a'') \<lparr>statusCode = Num (Fin 200), appended = [], sent = [Str (js ''y'')]\<rparr>
             (snd (snd (cache_middleware 1000 (js ''/a'')
                \<lparr>statusCode = Num (Fin 404), appended = [], sent = [Str (js ''x'')]\<rparr> Map.empty)))))"
proof -
  let ?x = "\<lparr>statusCode = Num (Fin 200), appended = [], sent = [Str (js ''x'')]\<rparr>"
  let ?y = "\<lparr>statusCode = Num (Fin 200), appended = [], sent = [Str (js ''y'')]\<rparr>"
  let ?z = "\<lparr>statusCode = Num (Fin 404), appended = [], sent = [Str (js ''x'')]\<rparr>"
  let ?rs = "[(2000::nat, js ''/b'', ?y)]"
  have miss: "Map.empty (js ''/a'') = None \<or> (\<exists>e. Map.empty (js ''/a'') = Some e \<and> expires e \<le> 1000)"
    by simp
  have ok: "statusCode ?x = Num (Fin 200)" and no: "statusCode ?z \<noteq> Num (Fin 200)"
    by simp_all
  have rs: "\<forall>r\<in>set ?rs. fst r < 1000 + 2 * 60 * 1000" by simp
  from C9_response_cache[of Map.empty "js ''/a''" 1000 ?x ?rs 100000 ?y, OF miss] ok rs
  have a: "fst (cache_middleware 100000 (js ''/a'') ?y
              (cache_after ?rs (snd (snd (cache_middleware 1000 (js ''/a'') ?x Map.empty))))) = ?x"
    and b: "\<not> fst (snd (cache_middleware 100000 (js ''/a'') ?y
              (cache_after ?rs (snd (snd (cache_middleware 1000 (js ''/a'') ?x Map.empty))))))"
    by simp_all
  from C9_response_cache[of Map.empty "js ''/a''" 1000 ?x ?rs 121000 ?y, OF miss] ok
  have c: "fst (snd (cache_middleware 121000 (js ''/a'') ?y
              (snd (snd (cache_middleware 1000 (js ''/a'') ?x Map.empty)))))"
    by simp
  have le: "(1000::nat) \<le> 2000" by simp
  from C9_response_cache[of Map.empty "js ''/a''" 1000 ?z ?rs 2000 ?y, OF miss] no le
  have d: "fst (snd (cache_middleware 2000 (js ''/a'') ?y
              (snd (snd (cache_middleware 1000 (js ''/a'') ?z Map.empty)))))"
    by blast
  from a b c d show ?thesis by blast
qed



end
